theory Spec2Isabelle
  imports Complex_Main "HOL-Library.Word" "HOL-Library.Multiset"
begin

section \<open>JavaScript values and strings\<close>

text \<open>
  A JavaScript string is a sequence of UTF-16 code units, and every string operation of
  the client (\<^verbatim>\<open>split\<close>, \<^verbatim>\<open>trim\<close>, \<^verbatim>\<open>startsWith\<close>, \<^verbatim>\<open>slice\<close>, the regular expressions without
  the \<^verbatim>\<open>u\<close> flag) counts code units. The model keeps that: a character is a 16-bit word.
  \<open>lit\<close> turns an ASCII literal into such a string.
\<close>

type_synonym jschar = "16 word"
type_synonym jsstring = "jschar list"

definition lit :: "string \<Rightarrow> jsstring" where
  "lit s = map of_char s"

text \<open>
  \<^verbatim>\<open>String.prototype.trim\<close> removes WhiteSpace and LineTerminator code points; the same set
  is the class \<^verbatim>\<open>\s\<close> of a regular expression.
\<close>

definition isWhiteSpace :: "jschar \<Rightarrow> bool" where
  "isWhiteSpace c =
     (c = 0x09 \<or> c = 0x0A \<or> c = 0x0B \<or> c = 0x0C \<or> c = 0x0D \<or> c = 0x20 \<or> c = 0xA0
      \<or> c = 0x1680 \<or> (0x2000 \<le> c \<and> c \<le> 0x200A) \<or> c = 0x2028 \<or> c = 0x2029
      \<or> c = 0x202F \<or> c = 0x205F \<or> c = 0x3000 \<or> c = 0xFEFF)"

definition trimStart :: "jsstring \<Rightarrow> jsstring" where
  "trimStart s = dropWhile isWhiteSpace s"

definition trimEnd :: "jsstring \<Rightarrow> jsstring" where
  "trimEnd s = rev (dropWhile isWhiteSpace (rev s))"

definition trim :: "jsstring \<Rightarrow> jsstring" where
  "trim s = trimEnd (trimStart s)"

text \<open>
  Values as \<^verbatim>\<open>JSON.parse\<close> produces them, with \<^verbatim>\<open>undefined\<close> for a property that is absent.
  An object keeps its properties in insertion order, which is what \<^verbatim>\<open>Object.keys\<close> returns.
\<close>

datatype jsval =
    JUndefined
  | JNull
  | JBool bool
  | JNum real
  | JStr jsstring
  | JArr "jsval list"
  | JObj "(jsstring \<times> jsval) list"

fun truthy :: "jsval \<Rightarrow> bool" where
  "truthy JUndefined = False"
| "truthy JNull = False"
| "truthy (JBool b) = b"
| "truthy (JNum r) = (r \<noteq> 0)"
| "truthy (JStr s) = (s \<noteq> [])"
| "truthy (JArr xs) = True"
| "truthy (JObj kvs) = True"

text \<open>The operator \<^verbatim>\<open>a || b\<close>.\<close>

definition jsor :: "jsval \<Rightarrow> jsval \<Rightarrow> jsval" where
  "jsor a b = (if truthy a then a else b)"

fun isString :: "jsval \<Rightarrow> bool" where
  "isString (JStr s) = True"
| "isString v = False"


section \<open>Stream events and the report draft\<close>

text \<open>
  The decoded events of \<^verbatim>\<open>handleStreamEvent\<close> (frontend/app.js), one constructor for each
  \<^verbatim>\<open>case\<close> of its \<^verbatim>\<open>switch\<close> and \<open>Unknown\<close> for every other \<^verbatim>\<open>event.type\<close> (the switch has no
  default branch). The delta events carry their text; the events whose branch only
  writes to the page carry the event object.
\<close>

record clarification_event =
  ev_rewritten_request :: jsval
  ev_original_intent :: jsval
  ev_original_request :: jsval
  ev_messages_context :: jsval
  ev_tool_call_id :: jsval

datatype event =
    AgentEvent jsval
  | Intent jsval
  | Clarification clarification_event
  | ReportCreated jsval
  | Status jsval
  | Outline jsval
  | SectionStart jsval
  | Heartbeat jsval
  | SectionComplete jsval
  | Complete jsval
  | ThinkingStart
  | Thinking jsstring
  | ThinkingEnd
  | Content jsstring
  | Sql jsval
  | SqlExecuting
  | Data jsval
  | AnalysisStart
  | Analysis jsstring
  | AnalysisEnd
  | Error jsval
  | Done
  | Unknown jsstring

text \<open>The object \<^verbatim>\<open>streamState\<close> that \<^verbatim>\<open>sendMessageStream\<close> creates for one exchange.\<close>

record streamState =
  thinking :: jsstring
  content :: jsstring
  sql :: jsval
  data :: jsval
  analysis :: jsstring
  isThinking :: bool
  isAnalyzing :: bool

definition freshStreamState :: streamState where
  "freshStreamState =
     \<lparr> thinking = [], content = [], sql = JNull, data = JNull, analysis = [],
       isThinking = False, isAnalyzing = False \<rparr>"

text \<open>The part of the module-level \<^verbatim>\<open>state\<close> object that the event handler and the
  clarification actions read and write.\<close>

record pending_clarification =
  rewritten_request :: jsval
  original_intent :: jsval
  original_request :: jsval
  messages_context :: jsval
  tool_call_id :: jsval

record app_state =
  sessionId :: jsval
  isLoading :: bool
  pendingClarification :: "pending_clarification option"
  currentReportId :: jsval
  currentReport :: jsval

definition initialState :: app_state where
  "initialState =
     \<lparr> sessionId = JNull, isLoading = False, pendingClarification = None,
       currentReportId = JUndefined, currentReport = JNull \<rparr>"

text \<open>The literal \<^verbatim>\<open>'[...]'\<close> (six CJK characters between brackets, "waiting for the user's
  confirmation") that the clarification branch stores as the draft's content.\<close>

definition waitingForConfirmation :: jsstring where
  "waitingForConfirmation = [0x5B, 0x7B49, 0x5F85, 0x7528, 0x6237, 0x786E, 0x8BA4, 0x5D]"

text \<open>
  \<^verbatim>\<open>handleStreamEvent(event, messageDiv, streamState)\<close>. The writes to the page are left
  out; each branch keeps its assignments to \<^verbatim>\<open>streamState\<close> and \<^verbatim>\<open>state\<close>, which in every
  branch come before anything that can fail, except in the clarification branch: there
  \<^verbatim>\<open>rewrittenRequest?.substring(..)\<close> and \<^verbatim>\<open>originalRequest?.substring(..)\<close> are evaluated
  first and throw a TypeError on a value that is neither a string nor nullish; the
  caller's \<^verbatim>\<open>try/catch\<close> swallows it and nothing has been assigned.
\<close>

fun handleStreamEvent :: "event \<Rightarrow> app_state \<times> streamState \<Rightarrow> app_state \<times> streamState" where
  "handleStreamEvent (AgentEvent e) (g, s) = (g, s)"
| "handleStreamEvent (Intent e) (g, s) = (g, s)"
| "handleStreamEvent (Clarification e) (g, s) =
     (let rewrittenRequest = jsor (ev_rewritten_request e) (JStr []);
          originalIntent = jsor (ev_original_intent e) (JStr []);
          originalRequest = jsor (ev_original_request e) (JStr []);
          messagesContext = jsor (ev_messages_context e) JNull;
          toolCallId = jsor (ev_tool_call_id e) JNull
      in if isString rewrittenRequest \<and> isString originalRequest
         then (g\<lparr> pendingClarification := Some
                   \<lparr> rewritten_request = rewrittenRequest,
                     original_intent = originalIntent,
                     original_request = originalRequest,
                     messages_context = messagesContext,
                     tool_call_id = toolCallId \<rparr> \<rparr>,
               s\<lparr> content := waitingForConfirmation \<rparr>)
         else (g, s))"
| "handleStreamEvent (ReportCreated report_id) (g, s) = (g\<lparr> currentReportId := report_id \<rparr>, s)"
| "handleStreamEvent (Status e) (g, s) = (g, s)"
| "handleStreamEvent (Outline e) (g, s) = (g, s)"
| "handleStreamEvent (SectionStart e) (g, s) = (g, s)"
| "handleStreamEvent (Heartbeat e) (g, s) = (g, s)"
| "handleStreamEvent (SectionComplete e) (g, s) = (g, s)"
| "handleStreamEvent (Complete report) (g, s) =
     (if \<not> truthy report then (g, s) else (g\<lparr> currentReport := report \<rparr>, s))"
| "handleStreamEvent ThinkingStart (g, s) = (g, s\<lparr> isThinking := True \<rparr>)"
| "handleStreamEvent (Thinking c) (g, s) = (g, s\<lparr> thinking := thinking s @ c \<rparr>)"
| "handleStreamEvent ThinkingEnd (g, s) = (g, s\<lparr> isThinking := False \<rparr>)"
| "handleStreamEvent (Content c) (g, s) = (g, s\<lparr> content := content s @ c \<rparr>)"
| "handleStreamEvent (Sql q) (g, s) = (g, s\<lparr> sql := q \<rparr>)"
| "handleStreamEvent SqlExecuting (g, s) = (g, s)"
| "handleStreamEvent (Data d) (g, s) = (g, s\<lparr> data := d \<rparr>)"
| "handleStreamEvent AnalysisStart (g, s) = (g, s\<lparr> isAnalyzing := True \<rparr>)"
| "handleStreamEvent (Analysis c) (g, s) = (g, s\<lparr> analysis := analysis s @ c \<rparr>)"
| "handleStreamEvent AnalysisEnd (g, s) = (g, s\<lparr> isAnalyzing := False \<rparr>)"
| "handleStreamEvent (Error e) (g, s) = (g, s)"
| "handleStreamEvent Done (g, s) = (g, s)"
| "handleStreamEvent (Unknown t) (g, s) = (g, s)"

text \<open>The two nested \<^verbatim>\<open>for\<close> loops of the read loop call the handler on every decoded
  event in order; no branch of the handler makes the loops stop.\<close>

fun handleEvents :: "event list \<Rightarrow> app_state \<times> streamState \<Rightarrow> app_state \<times> streamState" where
  "handleEvents [] st = st"
| "handleEvents (e # es) st = handleEvents es (handleStreamEvent e st)"

fun isClarification :: "event \<Rightarrow> bool" where
  "isClarification (Clarification e) = True"
| "isClarification e = False"


text \<open>
  \<^verbatim>\<open>confirmClarification(textareaId)\<close> up to the point where the request is sent: the
  result is the request body handed to \<^verbatim>\<open>fetch\<close> together with the state at that moment,
  or \<open>None\<close> when the function returns early (no such textarea, nothing pending, or an
  empty text after trimming). The first argument is the textarea's value, \<open>None\<close> when
  \<^verbatim>\<open>getElementById\<close> finds no element.
\<close>

record clarification_request =
  req_session_id :: jsval
  req_message :: jsstring
  req_clarification_response :: jsstring
  req_original_request :: jsval
  req_messages_context :: jsval
  req_tool_call_id :: jsval
  req_stream :: bool

definition confirmClarification ::
  "jsstring option \<Rightarrow> app_state \<Rightarrow> (clarification_request \<times> app_state) option" where
  "confirmClarification textarea g =
     (case textarea of
        None \<Rightarrow> None
      | Some v \<Rightarrow>
          (case pendingClarification g of
             None \<Rightarrow> None
           | Some pc \<Rightarrow>
               (let confirmedContent = trim v
                in if confirmedContent = [] then None
                   else Some
                     (\<lparr> req_session_id = sessionId g,
                        req_message = confirmedContent,
                        req_clarification_response = confirmedContent,
                        req_original_request = original_request pc,
                        req_messages_context = messages_context pc,
                        req_tool_call_id = tool_call_id pc,
                        req_stream = True \<rparr>,
                      g\<lparr> pendingClarification := None, isLoading := True \<rparr>))))"

text \<open>\<^verbatim>\<open>cancelClarification()\<close>.\<close>

definition cancelClarification :: "app_state \<Rightarrow> app_state" where
  "cancelClarification g = g\<lparr> pendingClarification := None \<rparr>"


section \<open>Frame reassembly\<close>

definition startsWith :: "jsstring \<Rightarrow> jsstring \<Rightarrow> bool" where
  "startsWith s p = (take (length p) s = p)"

definition endsWith :: "jsstring \<Rightarrow> jsstring \<Rightarrow> bool" where
  "endsWith s p = (length p \<le> length s \<and> drop (length s - length p) s = p)"

fun includesStr :: "jsstring \<Rightarrow> jsstring \<Rightarrow> bool" where
  "includesStr [] p = (p = [])"
| "includesStr (c # cs) p = (startsWith (c # cs) p \<or> includesStr cs p)"

text \<open>
  \<^verbatim>\<open>s.split(sep)\<close> for a separator string: the occurrences of the separator are found from
  left to right, each search starting behind the previous occurrence. Every call of the
  client passes a non-empty separator; for the empty one JavaScript returns the code
  units one by one.
\<close>

function splitOn :: "jsstring \<Rightarrow> jsstring \<Rightarrow> jsstring list" where
  "splitOn sep [] = [[]]"
| "splitOn sep (c # cs) =
     (if sep \<noteq> [] \<and> startsWith (c # cs) sep
      then [] # splitOn sep (drop (length sep) (c # cs))
      else (case splitOn sep cs of
              [] \<Rightarrow> [[c]]
            | r # rs \<Rightarrow> (c # r) # rs))"
  by pat_completeness auto
termination
  by (relation "measure (\<lambda>(sep, s). length s)") auto

definition split :: "jsstring \<Rightarrow> jsstring \<Rightarrow> jsstring list" where
  "split s sep = (if sep = [] then map (\<lambda>c. [c]) s else splitOn sep s)"

text \<open>\<^verbatim>\<open>xs.pop() || ''\<close> on an array of strings: the last element, the empty string for an
  empty array; and the array that \<^verbatim>\<open>pop\<close> leaves behind.\<close>

definition popped :: "jsstring list \<Rightarrow> jsstring" where
  "popped xs = (if xs = [] then [] else last xs)"

text \<open>
  The body of \<^verbatim>\<open>for (const message of messages)\<close> in \<^verbatim>\<open>sendMessageStream\<close>: the payloads
  of one message that reach \<^verbatim>\<open>JSON.parse\<close>, in order.
\<close>

definition messagePayloads :: "jsstring \<Rightarrow> jsstring list" where
  "messagePayloads message =
     (if trim message = [] then []
      else filter (\<lambda>d. d \<noteq> lit ''[DONE]'')
             (map (drop 6) (filter (\<lambda>line. startsWith line (lit ''data: ''))
                (split message (lit ''\<newline>'')))))"

text \<open>
  \<^verbatim>\<open>JSON.parse\<close> and the reading of the event object are a parameter \<open>parse\<close>: \<open>None\<close> is a
  payload on which \<^verbatim>\<open>JSON.parse\<close> throws; the \<^verbatim>\<open>catch\<close> logs it and the loop goes on.
\<close>

definition messageEvents :: "(jsstring \<Rightarrow> 'e option) \<Rightarrow> jsstring \<Rightarrow> 'e list" where
  "messageEvents parse message = List.map_filter parse (messagePayloads message)"

text \<open>
  The read loop of \<^verbatim>\<open>sendMessageStream\<close> (and its copy in \<^verbatim>\<open>confirmClarification\<close>), as the
  sequence of decoded frames it hands to the handler. The chunks are the texts that the
  streaming \<^verbatim>\<open>TextDecoder\<close> returns for the successive reads; \<open>buffer\<close> is the loop's
  variable. When the reader is done the loop ends and what is left in the buffer is
  not looked at.
\<close>

fun frames :: "(jsstring \<Rightarrow> 'e option) \<Rightarrow> jsstring list \<Rightarrow> jsstring \<Rightarrow> 'e list" where
  "frames parse [] buffer = []"
| "frames parse (chunk # chunks) buffer =
     (let messages = split (buffer @ chunk) (lit ''\<newline>\<newline>'')
      in concat (map (messageEvents parse) (butlast messages))
           @ frames parse chunks (popped messages))"

text \<open>The same loop with the handler applied to every frame.\<close>

fun readLoop ::
  "(jsstring \<Rightarrow> event option) \<Rightarrow> jsstring list \<Rightarrow> jsstring \<Rightarrow> app_state \<times> streamState
     \<Rightarrow> app_state \<times> streamState" where
  "readLoop parse [] buffer st = st"
| "readLoop parse (chunk # chunks) buffer st =
     (let messages = split (buffer @ chunk) (lit ''\<newline>\<newline>'')
      in readLoop parse chunks (popped messages)
           (handleEvents (concat (map (messageEvents parse) (butlast messages))) st))"


section \<open>Regular expressions\<close>

text \<open>
  The regular expressions of the client are built from classes of one code unit,
  sequence, alternation, the greedy and the lazy star and capturing groups. \<open>rmatch r s\<close>
  lists the ways in which \<open>r\<close> matches at the beginning of \<open>s\<close>, each with the texts of
  the groups it closed (in the order of their opening parentheses) and the rest of \<open>s\<close>
  behind the match, in the order in which a backtracking matcher tries them: the head of
  the list is the match that JavaScript reports. As in ECMAScript, an iteration of a
  star that consumes nothing is not taken. No expression of the client has a group under
  a star.
\<close>

datatype regex =
    Chr "jschar \<Rightarrow> bool"
  | Eps
  | Seq regex regex
  | Alt regex regex
  | Star regex
  | Lazy regex
  | Grp regex

fun rmatch :: "regex \<Rightarrow> jsstring \<Rightarrow> (jsstring list \<times> jsstring) list" where
  "rmatch (Chr p) s = (case s of [] \<Rightarrow> [] | c # cs \<Rightarrow> if p c then [([], cs)] else [])"
| "rmatch Eps s = [([], s)]"
| "rmatch (Seq a b) s =
     concat (map (\<lambda>(c1, s1). map (\<lambda>(c2, s2). (c1 @ c2, s2)) (rmatch b s1)) (rmatch a s))"
| "rmatch (Alt a b) s = rmatch a s @ rmatch b s"
| "rmatch (Star a) s =
     concat (map (\<lambda>(c1, s1). if length s1 < length s then rmatch (Star a) s1 else [])
        (rmatch a s)) @ [([], s)]"
| "rmatch (Lazy a) s =
     ([], s) # concat (map (\<lambda>(c1, s1). if length s1 < length s then rmatch (Lazy a) s1 else [])
        (rmatch a s))"
| "rmatch (Grp a) s = map (\<lambda>(c, s1). (take (length s - length s1) s # c, s1)) (rmatch a s)"

text \<open>Abbreviations: one given code unit, a literal text, the same without regard to the
  case of ASCII letters (flag \<^verbatim>\<open>i\<close>), \<^verbatim>\<open>r+\<close>, \<^verbatim>\<open>r?\<close>, and the alternatives of a list.\<close>

definition ch :: "jschar \<Rightarrow> regex" where
  "ch c = Chr (\<lambda>x. x = c)"

definition chi :: "jschar \<Rightarrow> regex" where
  "chi c = Chr (\<lambda>x. x = c \<or> (0x61 \<le> c \<and> c \<le> 0x7A \<and> x = c - 0x20)
                         \<or> (0x41 \<le> c \<and> c \<le> 0x5A \<and> x = c + 0x20))"

fun str :: "jsstring \<Rightarrow> regex" where
  "str [] = Eps"
| "str (c # cs) = Seq (ch c) (str cs)"

fun stri :: "jsstring \<Rightarrow> regex" where
  "stri [] = Eps"
| "stri (c # cs) = Seq (chi c) (stri cs)"

definition plus :: "regex \<Rightarrow> regex" where
  "plus r = Seq r (Star r)"

definition opt :: "regex \<Rightarrow> regex" where
  "opt r = Alt r Eps"

fun alts :: "regex list \<Rightarrow> regex" where
  "alts [] = Chr (\<lambda>x. False)"
| "alts [r] = r"
| "alts (r # rs) = Alt r (alts rs)"

definition isDigit :: "jschar \<Rightarrow> bool" where
  "isDigit c = (0x30 \<le> c \<and> c \<le> 0x39)"

definition isLetter :: "jschar \<Rightarrow> bool" where
  "isLetter c = ((0x41 \<le> c \<and> c \<le> 0x5A) \<or> (0x61 \<le> c \<and> c \<le> 0x7A))"

text \<open>
  \<^verbatim>\<open>regex.test(s)\<close> for an expression written between \<^verbatim>\<open>^\<close> and \<^verbatim>\<open>$\<close> (no flag \<^verbatim>\<open>m\<close>): some
  way of matching ends at the end of \<open>s\<close>; for one that starts with \<^verbatim>\<open>^\<close> only; and for one
  without anchors, which may match at any position.
\<close>

definition testFull :: "regex \<Rightarrow> jsstring \<Rightarrow> bool" where
  "testFull r s = ([] \<in> set (map snd (rmatch r s)))"

definition testPrefix :: "regex \<Rightarrow> jsstring \<Rightarrow> bool" where
  "testPrefix r s = (rmatch r s \<noteq> [])"

fun testSearch :: "regex \<Rightarrow> jsstring \<Rightarrow> bool" where
  "testSearch r [] = (rmatch r [] \<noteq> [])"
| "testSearch r (c # cs) = (rmatch r (c # cs) \<noteq> [] \<or> testSearch r cs)"

text \<open>
  A replacement text with \<^verbatim>\<open>$n\<close> references, and \<^verbatim>\<open>s.replace(/r/g, replacement)\<close>: the
  matches are looked for from left to right, each search starting behind the previous
  match (one code unit further after an empty match), and every match is replaced.
\<close>

datatype tpart = Txt jsstring | Ref nat

fun expand :: "tpart list \<Rightarrow> jsstring list \<Rightarrow> jsstring" where
  "expand [] caps = []"
| "expand (Txt t # ps) caps = t @ expand ps caps"
| "expand (Ref n # ps) caps =
     (if 0 < n \<and> n \<le> length caps then caps ! (n - 1) else [0x24, 0x30 + of_nat n])
       @ expand ps caps"

function replaceAll :: "regex \<Rightarrow> tpart list \<Rightarrow> jsstring \<Rightarrow> jsstring" where
  "replaceAll r t s =
     (case rmatch r s of
        [] \<Rightarrow> (case s of [] \<Rightarrow> [] | c # cs \<Rightarrow> c # replaceAll r t cs)
      | (caps, rest) # other \<Rightarrow>
          if length rest < length s then expand t caps @ replaceAll r t rest
          else expand t caps @ (case s of [] \<Rightarrow> [] | c # cs \<Rightarrow> c # replaceAll r t cs))"
  by pat_completeness auto
termination
  by (relation "measure (\<lambda>(r, t, s). length s)") auto

text \<open>\<^verbatim>\<open>xs.join(sep)\<close>.\<close>

fun join :: "jsstring list \<Rightarrow> jsstring \<Rightarrow> jsstring" where
  "join [] sep = []"
| "join [x] sep = x"
| "join (x # xs) sep = x @ sep @ join xs sep"


section \<open>Markdown repair\<close>

text \<open>\<^verbatim>\<open>(s.match(/\|/g) || []).length\<close>: the number of pipes in \<open>s\<close>.\<close>

definition pipeCount :: "jsstring \<Rightarrow> nat" where
  "pipeCount s = length (filter (\<lambda>c. c = 0x7C) s)"

text \<open>\<^verbatim>\<open>/^\|[-:\s|]+\|$/\<close>, the header separator row.\<close>

definition separatorRow :: regex where
  "separatorRow =
     Seq (ch 0x7C)
       (Seq (plus (Chr (\<lambda>c. c = 0x2D \<or> c = 0x3A \<or> isWhiteSpace c \<or> c = 0x7C))) (ch 0x7C))"

text \<open>\<^verbatim>\<open>/^\|\s*[^|]+\s*\|$/\<close>, a lone cell.\<close>

definition loneCell :: regex where
  "loneCell =
     Seq (ch 0x7C)
       (Seq (Star (Chr isWhiteSpace))
          (Seq (plus (Chr (\<lambda>c. c \<noteq> 0x7C)))
             (Seq (Star (Chr isWhiteSpace)) (ch 0x7C))))"

text \<open>
  The first loop of \<^verbatim>\<open>fixMarkdownTables\<close>: the column count that the first separator row
  gives, 0 when there is none.
\<close>

definition expectedColumns :: "jsstring list \<Rightarrow> int" where
  "expectedColumns lines =
     (case filter (\<lambda>line. testFull separatorRow (trim line)) lines of
        [] \<Rightarrow> 0
      | line # other \<Rightarrow> int (pipeCount (trim line)) - 1)"

text \<open>
  The inner \<^verbatim>\<open>while (j < lines.length)\<close>: \<open>combined\<close> is the row under repair, the list
  holds the lines from index \<open>j\<close> on, and the result is the repaired row with the number
  of lines that were consumed.
\<close>

fun mergeRow :: "int \<Rightarrow> jsstring \<Rightarrow> jsstring list \<Rightarrow> nat \<Rightarrow> jsstring \<times> nat" where
  "mergeRow expectedCols combined [] k = (combined, k)"
| "mergeRow expectedCols combined (l # ls) k =
     (let nextLine = trim l in
      if nextLine = [] then mergeRow expectedCols combined ls (Suc k)
      else if testFull separatorRow nextLine then (combined, k)
      else if startsWith nextLine [0x7C] then
        (let combined' =
           (if endsWith combined [0x7C]
            then trimEnd (butlast combined) @ [0x20] @ trimStart (drop 1 nextLine)
            else trimEnd combined @ [0x20] @ trimStart nextLine)
         in if endsWith combined' [0x7C] \<and> int (pipeCount combined') - 1 = expectedCols
            then (combined', Suc k)
            else mergeRow expectedCols combined' ls (Suc k))
      else mergeRow expectedCols (trimEnd combined @ [0x20] @ trimStart nextLine) ls (Suc k))"

text \<open>
  The main \<^verbatim>\<open>while (i < lines.length)\<close>: the list holds the lines from index \<open>i\<close> on and
  \<open>merged\<close> is the array of the same name.
\<close>

function mergeLines :: "int \<Rightarrow> jsstring list \<Rightarrow> jsstring list \<Rightarrow> jsstring list" where
  "mergeLines expectedCols merged [] = merged"
| "mergeLines expectedCols merged (line # rest) =
     (let trimmed = trim line in
      if testFull loneCell trimmed \<and> merged \<noteq> []
         \<and> int (pipeCount trimmed) - 1 = 1 \<and> \<not> includesStr trimmed (lit ''---'')
         \<and> \<not> endsWith (trim (last merged)) [0x7C] \<and> trim (last merged) \<noteq> []
      then mergeLines expectedCols
             (butlast merged @ [trim (last merged) @ [0x20] @ trimmed]) rest
      else if startsWith trimmed [0x7C] \<and> 0 < expectedCols then
        (if testFull separatorRow trimmed
         then mergeLines expectedCols (merged @ [trimmed]) rest
         else if endsWith trimmed [0x7C] \<and> int (pipeCount trimmed) - 1 = expectedCols
         then mergeLines expectedCols (merged @ [trimmed]) rest
         else (case mergeRow expectedCols trimmed rest 0 of
                 (combined, k) \<Rightarrow> mergeLines expectedCols (merged @ [combined]) (drop k rest)))
      else if rest \<noteq> []
         \<and> testFull loneCell (trim (hd rest)) \<and> \<not> includesStr (trim (hd rest)) (lit ''---'')
         \<and> \<not> startsWith trimmed [0x7C] \<and> \<not> endsWith trimmed [0x7C] \<and> trimmed \<noteq> []
      then mergeLines expectedCols (merged @ [trimmed @ [0x20] @ trim (hd rest)]) (tl rest)
      else mergeLines expectedCols (merged @ [line]) rest)"
  by pat_completeness auto
termination
  by (relation "measure (\<lambda>(e, m, ls). length ls)") auto

text \<open>The three replacements that force blank lines around a table:
  \<^verbatim>\<open>/([.!?])[ \t]*(\|)/g\<close> (the class also holds the three full-width CJK marks),
  \<^verbatim>\<open>/([^\n|])[ \t]*\n(\|[^\n]+\|)\n(\|[-:\s|]+\|)/g\<close> and \<^verbatim>\<open>/(\|[^\n]+\|)\n([^|\s\n])/g\<close>.\<close>

definition blankOrTab :: regex where
  "blankOrTab = Chr (\<lambda>c. c = 0x20 \<or> c = 0x09)"

definition pipeAfterSentence :: regex where
  "pipeAfterSentence =
     Seq (Grp (Chr (\<lambda>c. c = 0x3002 \<or> c = 0xFF01 \<or> c = 0xFF1F \<or> c = 0x2E \<or> c = 0x21 \<or> c = 0x3F)))
       (Seq (Star blankOrTab) (Grp (ch 0x7C)))"

definition tableAfterText :: regex where
  "tableAfterText =
     Seq (Grp (Chr (\<lambda>c. c \<noteq> 0x0A \<and> c \<noteq> 0x7C)))
       (Seq (Star blankOrTab)
          (Seq (ch 0x0A)
             (Seq (Grp (Seq (ch 0x7C) (Seq (plus (Chr (\<lambda>c. c \<noteq> 0x0A))) (ch 0x7C))))
                (Seq (ch 0x0A) (Grp separatorRow)))))"

definition textAfterTable :: regex where
  "textAfterTable =
     Seq (Grp (Seq (ch 0x7C) (Seq (plus (Chr (\<lambda>c. c \<noteq> 0x0A))) (ch 0x7C))))
       (Seq (ch 0x0A) (Grp (Chr (\<lambda>c. c \<noteq> 0x7C \<and> \<not> isWhiteSpace c \<and> c \<noteq> 0x0A))))"

text \<open>\<^verbatim>\<open>fixMarkdownTables(text)\<close> (the same function in frontend/app.js and in the report
  page's script).\<close>

definition fixMarkdownTables :: "jsstring \<Rightarrow> jsstring" where
  "fixMarkdownTables s =
     (if s = [] then []
      else
        (let lines = split s (lit ''\<newline>'');
             merged = mergeLines (expectedColumns lines) [] lines;
             fixed = join merged (lit ''\<newline>'');
             fixed = replaceAll pipeAfterSentence [Ref 1, Txt (lit ''\<newline>\<newline>''), Ref 2] fixed;
             fixed = replaceAll tableAfterText
                       [Ref 1, Txt (lit ''\<newline>\<newline>''), Ref 2, Txt (lit ''\<newline>''), Ref 3] fixed;
             fixed = replaceAll textAfterTable [Ref 1, Txt (lit ''\<newline>\<newline>''), Ref 2] fixed
         in fixed))"

text \<open>The expressions of \<^verbatim>\<open>cleanHtmlAndUrls\<close>, in the order of its \<^verbatim>\<open>replace\<close> calls.\<close>

definition notGt :: regex where
  "notGt = Chr (\<lambda>c. c \<noteq> 0x3E)"

definition anyChar :: regex where
  "anyChar = Chr (\<lambda>c. True)"

definition tagNames :: regex where
  "tagNames =
     alts [stri (lit ''strong''), stri (lit ''b''), stri (lit ''i''), stri (lit ''em''),
           stri (lit ''u''), stri (lit ''span''), stri (lit ''div''), stri (lit ''p''),
           stri (lit ''br''), stri (lit ''ul''), stri (lit ''li''), stri (lit ''ol''),
           Seq (chi 0x68) (Chr (\<lambda>c. 0x31 \<le> c \<and> c \<le> 0x36))]"

text \<open>\<^verbatim>\<open>/<a\s+[^>]*>[\s\S]*?<\/a>/gi\<close>\<close>
definition anchorElement :: regex where
  "anchorElement =
     Seq (ch 0x3C) (Seq (chi 0x61) (Seq (plus (Chr isWhiteSpace)) (Seq (Star notGt)
       (Seq (ch 0x3E) (Seq (Lazy anyChar) (stri (lit ''</a>'')))))))"

text \<open>\<^verbatim>\<open>/<a\s+[^>]*>/gi\<close>\<close>
definition anchorOpen :: regex where
  "anchorOpen =
     Seq (ch 0x3C) (Seq (chi 0x61) (Seq (plus (Chr isWhiteSpace)) (Seq (Star notGt) (ch 0x3E))))"

text \<open>\<^verbatim>\<open>/<\/a>/gi\<close>\<close>
definition anchorClose :: regex where
  "anchorClose = stri (lit ''</a>'')"

text \<open>\<^verbatim>\<open>/<(strong|b|i|em|u|span|div|p|br|ul|li|ol|h[1-6])[^>]*>/gi\<close>\<close>
definition commonOpen :: regex where
  "commonOpen = Seq (ch 0x3C) (Seq (Grp tagNames) (Seq (Star notGt) (ch 0x3E)))"

text \<open>\<^verbatim>\<open>/<\/(strong|b|i|em|u|span|div|p|br|ul|li|ol|h[1-6])>/gi\<close>\<close>
definition commonClose :: regex where
  "commonClose = Seq (ch 0x3C) (Seq (ch 0x2F) (Seq (Grp tagNames) (ch 0x3E)))"

text \<open>\<^verbatim>\<open>/<[a-zA-Z][^>]*>/g\<close>\<close>
definition anyOpen :: regex where
  "anyOpen = Seq (ch 0x3C) (Seq (Chr isLetter) (Seq (Star notGt) (ch 0x3E)))"

text \<open>\<^verbatim>\<open>/<\/[a-zA-Z]+>/g\<close>\<close>
definition anyClose :: regex where
  "anyClose = Seq (ch 0x3C) (Seq (ch 0x2F) (Seq (plus (Chr isLetter)) (ch 0x3E)))"

text \<open>\<^verbatim>\<open>/https?:\/\/steamcommunity\.com\/linkfilter\/\?url=[^\s<>"'\]]+/gi\<close>\<close>
definition steamUrl :: regex where
  "steamUrl =
     Seq (stri (lit ''http'')) (Seq (opt (chi 0x73))
       (Seq (stri (lit ''://steamcommunity.com/linkfilter/?url=''))
          (plus (Chr (\<lambda>c. \<not> isWhiteSpace c \<and> c \<noteq> 0x3C \<and> c \<noteq> 0x3E \<and> c \<noteq> 0x22
                          \<and> c \<noteq> 0x27 \<and> c \<noteq> 0x5D)))))"

text \<open>\<^verbatim>\<open>/file:\/\/\/[^\s<>)"\]]+/gi\<close>\<close>
definition fileUrl :: regex where
  "fileUrl =
     Seq (stri (lit ''file:///''))
       (plus (Chr (\<lambda>c. \<not> isWhiteSpace c \<and> c \<noteq> 0x3C \<and> c \<noteq> 0x3E \<and> c \<noteq> 0x29 \<and> c \<noteq> 0x22
                       \<and> c \<noteq> 0x5D)))"

text \<open>\<^verbatim>\<open>/https?:\/\/[^\s<>\[\]()'"]+/g\<close>\<close>
definition plainUrl :: regex where
  "plainUrl =
     Seq (str (lit ''http'')) (Seq (opt (ch 0x73)) (Seq (str (lit ''://''))
       (plus (Chr (\<lambda>c. \<not> isWhiteSpace c \<and> c \<noteq> 0x3C \<and> c \<noteq> 0x3E \<and> c \<noteq> 0x5B \<and> c \<noteq> 0x5D
                       \<and> c \<noteq> 0x28 \<and> c \<noteq> 0x29 \<and> c \<noteq> 0x27 \<and> c \<noteq> 0x22)))))"

text \<open>\<^verbatim>\<open>/\[([^\]]*)\]\([^)]+\)/g\<close>\<close>
definition markdownLink :: regex where
  "markdownLink =
     Seq (ch 0x5B) (Seq (Grp (Star (Chr (\<lambda>c. c \<noteq> 0x5D)))) (Seq (ch 0x5D)
       (Seq (ch 0x28) (Seq (plus (Chr (\<lambda>c. c \<noteq> 0x29))) (ch 0x29)))))"

text \<open>\<^verbatim>\<open>/"(https?:\/\/[^"]+)"/g\<close> and \<^verbatim>\<open>/'(https?:\/\/[^']+)'/g\<close>, with the quote as
  parameter.\<close>
definition quotedUrl :: "jschar \<Rightarrow> regex" where
  "quotedUrl q =
     Seq (ch q)
       (Seq (Grp (Seq (str (lit ''http'')) (Seq (opt (ch 0x73)) (Seq (str (lit ''://''))
          (plus (Chr (\<lambda>c. c \<noteq> q)))))))
        (ch q))"

text \<open>\<^verbatim>\<open>/&[a-zA-Z]+;/g\<close> and \<^verbatim>\<open>/&#\d+;/g\<close>\<close>
definition namedEntity :: regex where
  "namedEntity = Seq (ch 0x26) (Seq (plus (Chr isLetter)) (ch 0x3B))"

definition numericEntity :: regex where
  "numericEntity = Seq (ch 0x26) (Seq (ch 0x23) (Seq (plus (Chr isDigit)) (ch 0x3B)))"

text \<open>\<^verbatim>\<open>/\n{3,}/g\<close>\<close>
definition blankLines :: regex where
  "blankLines = Seq (ch 0x0A) (Seq (ch 0x0A) (Seq (ch 0x0A) (Star (ch 0x0A))))"

text \<open>\<^verbatim>\<open>cleanHtmlAndUrls(text)\<close> (the same function in both scripts).\<close>

definition cleanHtmlAndUrls :: "jsstring \<Rightarrow> jsstring" where
  "cleanHtmlAndUrls s =
     (if s = [] then []
      else
        (let cleaned = replaceAll anchorElement [] s;
             cleaned = replaceAll anchorOpen [] cleaned;
             cleaned = replaceAll anchorClose [] cleaned;
             cleaned = replaceAll commonOpen [] cleaned;
             cleaned = replaceAll commonClose [] cleaned;
             cleaned = replaceAll anyOpen [] cleaned;
             cleaned = replaceAll anyClose [] cleaned;
             cleaned = replaceAll steamUrl [] cleaned;
             cleaned = replaceAll fileUrl [] cleaned;
             cleaned = replaceAll plainUrl [] cleaned;
             cleaned = replaceAll markdownLink [Ref 1] cleaned;
             cleaned = replaceAll (quotedUrl 0x22) [] cleaned;
             cleaned = replaceAll (quotedUrl 0x27) [] cleaned;
             cleaned = replaceAll (str (lit ''%22'')) [] cleaned;
             cleaned = replaceAll (str (lit ''%27'')) [] cleaned;
             cleaned = replaceAll namedEntity [Txt (lit '' '')] cleaned;
             cleaned = replaceAll numericEntity [Txt (lit '' '')] cleaned;
             cleaned = replaceAll (plus blankOrTab) [Txt (lit '' '')] cleaned;
             cleaned = replaceAll blankLines [Txt (lit ''\<newline>\<newline>'')] cleaned
         in trim cleaned))"

text \<open>
  The repair pipeline at the head of \<^verbatim>\<open>renderMarkdown\<close>: sanitization, then table repair.
\<close>

definition repairMarkdown :: "jsstring \<Rightarrow> jsstring" where
  "repairMarkdown s = (if s = [] then [] else fixMarkdownTables (cleanHtmlAndUrls s))"


section \<open>Chart resolution\<close>

text \<open>
  JavaScript numbers, as far as their order matters: the finite ones (taken as reals),
  the two infinities and NaN. The sign of a difference of two finite binary64 numbers is
  the sign of their exact difference, so subtraction on the reals gives the comparators
  below the sign they have in JavaScript.
\<close>

datatype jsnum = NaN | NegInf | Fin real | PosInf

fun numMinus :: "jsnum \<Rightarrow> jsnum \<Rightarrow> jsnum" where
  "numMinus NaN y = NaN"
| "numMinus x NaN = NaN"
| "numMinus (Fin a) (Fin b) = Fin (a - b)"
| "numMinus (Fin a) PosInf = NegInf"
| "numMinus (Fin a) NegInf = PosInf"
| "numMinus PosInf PosInf = NaN"
| "numMinus PosInf y = PosInf"
| "numMinus NegInf NegInf = NaN"
| "numMinus NegInf y = NegInf"

fun isNegative :: "jsnum \<Rightarrow> bool" where
  "isNegative NegInf = True"
| "isNegative (Fin r) = (r < 0)"
| "isNegative x = False"

text \<open>\<^verbatim>\<open>x || 0\<close> on a number.\<close>

fun numOrZero :: "jsnum \<Rightarrow> jsnum" where
  "numOrZero NaN = Fin 0"
| "numOrZero x = x"

text \<open>
  \<^verbatim>\<open>Array.prototype.sort(comparefn)\<close> is not code of the client. ECMAScript asks for a stable
  sort when the comparator is consistent and leaves the order to the engine otherwise;
  the model is the stable insertion sort: the elements are taken from left to right, and
  each goes in front of the first element of the sorted part before which the comparator
  puts it (a negative result; NaN counts as 0).
\<close>

fun insertSorted :: "('a \<Rightarrow> 'a \<Rightarrow> jsnum) \<Rightarrow> 'a \<Rightarrow> 'a list \<Rightarrow> 'a list" where
  "insertSorted comparefn x [] = [x]"
| "insertSorted comparefn x (y # ys) =
     (if isNegative (comparefn x y) then x # y # ys else y # insertSorted comparefn x ys)"

definition arraySort :: "('a \<Rightarrow> 'a \<Rightarrow> jsnum) \<Rightarrow> 'a list \<Rightarrow> 'a list" where
  "arraySort comparefn xs = foldl (\<lambda>sorted x. insertSorted comparefn x sorted) [] xs"

text \<open>
  A row of chart data is an object; \<open>getProp\<close> reads a property (\<^verbatim>\<open>undefined\<close> when it is
  absent) and \<open>keys\<close> is \<^verbatim>\<open>Object.keys\<close>. A field name that is \<^verbatim>\<open>undefined\<close> is \<open>None\<close>; used
  as a property key it reads the property named "undefined".
\<close>

type_synonym row = "(jsstring \<times> jsval) list"

definition getProp :: "row \<Rightarrow> jsstring \<Rightarrow> jsval" where
  "getProp r k = (case map_of r k of None \<Rightarrow> JUndefined | Some v \<Rightarrow> v)"

definition propAt :: "row \<Rightarrow> jsstring option \<Rightarrow> jsval" where
  "propAt r k = (case k of None \<Rightarrow> getProp r (lit ''undefined'') | Some f \<Rightarrow> getProp r f)"

definition keys :: "row \<Rightarrow> jsstring list" where
  "keys r = map fst r"

text \<open>\<^verbatim>\<open>v == null\<close>.\<close>

definition isNullish :: "jsval \<Rightarrow> bool" where
  "isNullish v = (v = JNull \<or> v = JUndefined)"

fun isNumber :: "jsval \<Rightarrow> bool" where
  "isNumber (JNum r) = True"
| "isNumber v = False"

text \<open>
  The library functions that the chart code calls on arbitrary values are parameters:
  \<^verbatim>\<open>parseFloat\<close> on a string, \<^verbatim>\<open>String(v)\<close> on a value that is not a string, the time value
  of \<^verbatim>\<open>new Date(s)\<close> (NaN for an invalid date) and \<^verbatim>\<open>a.localeCompare(b)\<close>.
\<close>

record env =
  parseFloatString :: "jsstring \<Rightarrow> jsnum"
  stringOf :: "jsval \<Rightarrow> jsstring"
  dateValue :: "jsstring \<Rightarrow> jsnum"
  localeCompare :: "jsstring \<Rightarrow> jsstring \<Rightarrow> jsnum"

fun toStr :: "env \<Rightarrow> jsval \<Rightarrow> jsstring" where
  "toStr env (JStr s) = s"
| "toStr env v = stringOf env v"

fun parseFloat :: "env \<Rightarrow> jsval \<Rightarrow> jsnum" where
  "parseFloat env (JNum r) = Fin r"
| "parseFloat env v = parseFloatString env (toStr env v)"

text \<open>The three date shapes of \<^verbatim>\<open>sortChartData\<close>: \<^verbatim>\<open>/^\d{4}[-/]\d{2}[-/]\d{2}/\<close>,
  \<^verbatim>\<open>/^\d{4}[-/]\d{2}$/\<close> and \<^verbatim>\<open>/^\d{4}$/\<close>.\<close>

definition digits2 :: regex where
  "digits2 = Seq (Chr isDigit) (Chr isDigit)"

definition dashOrSlash :: regex where
  "dashOrSlash = Chr (\<lambda>c. c = 0x2D \<or> c = 0x2F)"

definition dateYMD :: regex where
  "dateYMD = Seq digits2 (Seq digits2 (Seq dashOrSlash (Seq digits2 (Seq dashOrSlash digits2))))"

definition dateYM :: regex where
  "dateYM = Seq digits2 (Seq digits2 (Seq dashOrSlash digits2))"

definition dateY :: regex where
  "dateY = Seq digits2 digits2"

definition isDateLike :: "jsval \<Rightarrow> bool" where
  "isDateLike sampleValue =
     (case sampleValue of
        JStr v \<Rightarrow> testPrefix dateYMD v \<or> testFull dateYM v \<or> testFull dateY v
      | _ \<Rightarrow> False)"

definition isNumeric :: "env \<Rightarrow> jsval \<Rightarrow> bool" where
  "isNumeric env sampleValue =
     (case sampleValue of
        JNum r \<Rightarrow> True
      | JStr v \<Rightarrow> parseFloatString env v \<noteq> NaN
      | _ \<Rightarrow> False)"

text \<open>The comparator of \<^verbatim>\<open>sortChartData\<close>; the two flags are those computed from the first
  row. \<^verbatim>\<open>String(v).replace(/\//g, '-')\<close> turns every slash into a dash.\<close>

definition slashToDash :: "jsstring \<Rightarrow> jsstring" where
  "slashToDash s = map (\<lambda>c. if c = 0x2F then 0x2D else c) s"

definition compareX :: "env \<Rightarrow> jsstring \<Rightarrow> bool \<Rightarrow> bool \<Rightarrow> row \<Rightarrow> row \<Rightarrow> jsnum" where
  "compareX env xField dateLike numeric a b =
     (let valA = getProp a xField; valB = getProp b xField in
      if isNullish valA then Fin 1
      else if isNullish valB then Fin (- 1)
      else if dateLike then
        numMinus (dateValue env (slashToDash (toStr env valA)))
                 (dateValue env (slashToDash (toStr env valB)))
      else if numeric then numMinus (parseFloat env valA) (parseFloat env valB)
      else localeCompare env (toStr env valA) (toStr env valB))"

text \<open>\<^verbatim>\<open>sortChartData(data, xField)\<close>.\<close>

definition sortChartData :: "env \<Rightarrow> row list \<Rightarrow> jsstring option \<Rightarrow> row list" where
  "sortChartData env rows xField =
     (case xField of
        None \<Rightarrow> rows
      | Some f \<Rightarrow>
          if rows = [] \<or> f = [] then rows
          else
            (let sampleValue = getProp (hd rows) f
             in arraySort (compareX env f (isDateLike sampleValue) (isNumeric env sampleValue))
                  rows))"

text \<open>
  A data source of a chart configuration: \<^verbatim>\<open>xAxis\<close> or \<^verbatim>\<open>x_axis\<close>, \<^verbatim>\<open>yAxis\<close> or \<^verbatim>\<open>y_axis\<close>
  (\<open>None\<close> for a property that is absent).
\<close>

record data_source =
  xAxis :: "jsstring option"
  x_axis :: "jsstring option"
  yAxis :: "jsstring list option"
  y_axis :: "jsstring list option"

definition truthyName :: "jsstring option \<Rightarrow> bool" where
  "truthyName f = (f \<noteq> None \<and> f \<noteq> Some [])"

text \<open>\<^verbatim>\<open>a || b\<close> on field names.\<close>

definition nameOr :: "jsstring option \<Rightarrow> jsstring option \<Rightarrow> jsstring option" where
  "nameOr a b = (if truthyName a then a else b)"

text \<open>\<^verbatim>\<open>ds.yAxis || ds.y_axis || []\<close>: an array is truthy, also the empty one.\<close>

definition yAxisOf :: "data_source \<Rightarrow> jsstring list" where
  "yAxisOf ds =
     (case yAxis ds of
        Some ys \<Rightarrow> ys
      | None \<Rightarrow> (case y_axis ds of Some ys \<Rightarrow> ys | None \<Rightarrow> []))"

text \<open>\<^verbatim>\<open>data[0] || {}\<close>, \<^verbatim>\<open>xs[0]\<close> and \<^verbatim>\<open>xs.find(p)\<close> on an array of names.\<close>

definition firstRow :: "row list \<Rightarrow> row" where
  "firstRow rows = (case rows of [] \<Rightarrow> [] | r # rs \<Rightarrow> r)"

definition first :: "jsstring list \<Rightarrow> jsstring option" where
  "first xs = (case xs of [] \<Rightarrow> None | x # ys \<Rightarrow> Some x)"

definition findName :: "(jsstring \<Rightarrow> bool) \<Rightarrow> jsstring list \<Rightarrow> jsstring option" where
  "findName p xs = first (filter p xs)"

text \<open>The comparator "first y field, descending": \<^verbatim>\<open>(parseFloat(b[y]) || 0) -
  (parseFloat(a[y]) || 0)\<close>.\<close>

definition compareYDesc :: "env \<Rightarrow> jsstring option \<Rightarrow> row \<Rightarrow> row \<Rightarrow> jsnum" where
  "compareYDesc env y a b =
     numMinus (numOrZero (parseFloat env (propAt b y))) (numOrZero (parseFloat env (propAt a y)))"

text \<open>The value by which that comparator ranks a row.\<close>

definition yValue :: "env \<Rightarrow> jsstring option \<Rightarrow> row \<Rightarrow> jsnum" where
  "yValue env y r = numOrZero (parseFloat env (propAt r y))"

text \<open>\<^verbatim>\<open>CHART_CONFIG.maxBarItems\<close>.\<close>

definition maxBarItems :: nat where
  "maxBarItems = 20"

text \<open>
  \<^verbatim>\<open>renderBarChart(container, config, data)\<close> up to \<^verbatim>\<open>displayData\<close>, the rows that are
  drawn; \<open>None\<close> is the early return "no valid fields".
\<close>

definition renderBarChart :: "env \<Rightarrow> data_source list \<Rightarrow> row list \<Rightarrow> row list option" where
  "renderBarChart env dataSources rows =
     (let dataKeys = keys (firstRow rows);
          xField0 = (if dataSources \<noteq> []
                     then nameOr (xAxis (hd dataSources)) (x_axis (hd dataSources))
                     else first dataKeys);
          yFields0 = (if dataSources \<noteq> []
                      then concat (map yAxisOf dataSources)
                      else filter (\<lambda>k. isNumber (getProp (firstRow rows) k)) (drop 1 dataKeys));
          xField = (if truthyName xField0 \<and> the xField0 \<notin> set dataKeys
                    then nameOr (findName (\<lambda>k. isString (getProp (firstRow rows) k)) dataKeys)
                           (first dataKeys)
                    else xField0);
          yFields1 = filter (\<lambda>f. f \<in> set dataKeys) yFields0;
          yFields = (if yFields1 = []
                     then filter (\<lambda>k. Some k \<noteq> xField \<and> isNumber (getProp (firstRow rows) k)) dataKeys
                     else yFields1)
      in if \<not> truthyName xField \<or> yFields = [] then None
         else
           (let sortedData = sortChartData env rows xField
            in Some (if maxBarItems < length sortedData \<and> yFields \<noteq> []
                     then take maxBarItems (arraySort (compareYDesc env (first yFields)) sortedData)
                     else sortedData)))"

text \<open>\<^verbatim>\<open>/Y|date|year|month|time/i\<close> (where Y is the CJK character "year", U+5E74).\<close>

definition timeLikeName :: regex where
  "timeLikeName =
     alts [ch 0x5E74, stri (lit ''date''), stri (lit ''year''), stri (lit ''month''),
           stri (lit ''time'')]"

text \<open>\<^verbatim>\<open>Array.from(new Set(xs))\<close>: the first occurrence of each element, in order.\<close>

fun dedupe :: "jsstring list \<Rightarrow> jsstring list" where
  "dedupe [] = []"
| "dedupe (x # xs) = x # dedupe (filter (\<lambda>y. y \<noteq> x) xs)"

text \<open>\<^verbatim>\<open>parseChartFields(config, data)\<close>: the x field and the y fields.\<close>

definition parseChartFields ::
  "data_source list \<Rightarrow> row list \<Rightarrow> jsstring option \<times> jsstring list" where
  "parseChartFields dataSources rows =
     (let xField0 = (if dataSources \<noteq> []
                     then nameOr (xAxis (hd dataSources)) (x_axis (hd dataSources))
                     else None);
          yFieldsSet = dedupe (concat (map yAxisOf dataSources));
          ks = keys (firstRow rows);
          xField = (if \<not> truthyName xField0 \<or> the xField0 \<notin> set ks
                    then nameOr
                           (findName (\<lambda>k. testSearch timeLikeName k
                                          \<and> \<not> isNumber (getProp (firstRow rows) k)) ks)
                           (nameOr (findName (\<lambda>k. isString (getProp (firstRow rows) k)) ks)
                              (first ks))
                    else xField0);
          yFields1 = filter (\<lambda>f. f \<in> set ks) yFieldsSet;
          yFields = (if yFields1 = []
                     then filter (\<lambda>k. Some k \<noteq> xField \<and> isNumber (getProp (firstRow rows) k)) ks
                     else yFields1)
      in (xField, yFields))"

text \<open>\<^verbatim>\<open>buildBarOption(config, data)\<close> up to \<^verbatim>\<open>displayData\<close>, the rows of the chart.\<close>

definition buildBarOption :: "env \<Rightarrow> data_source list \<Rightarrow> row list \<Rightarrow> row list" where
  "buildBarOption env dataSources rows =
     (case parseChartFields dataSources rows of
        (xField, yFields) \<Rightarrow>
          (let validData = filter (\<lambda>d. \<not> isNullish (propAt d xField) \<and> propAt d xField \<noteq> JStr []
                                     \<and> propAt d xField \<noteq> JStr (lit ''undefined'')) rows;
               sortedData = sortChartData env validData xField
           in if 25 < length sortedData
              then take 20 (arraySort (compareYDesc env (first yFields)) sortedData)
              else sortedData))"

text \<open>
  \<^verbatim>\<open>calculateYTicks(min, max, count)\<close> in the arithmetic of the reals. \<open>mathRound\<close> is
  \<^verbatim>\<open>Math.round\<close>. \<open>None\<close> stands for a result that holds NaN: a single tick (the rough
  step is a division by zero) or a negative rough step (its logarithm is NaN); a rough
  step of zero gives a step of zero.
\<close>

definition mathRound :: "real \<Rightarrow> real" where
  "mathRound x = of_int \<lfloor>x + 1 / 2\<rfloor>"

definition niceStep :: "real \<Rightarrow> real" where
  "niceStep roughStep =
     (let magnitude = 10 powr of_int \<lfloor>log 10 roughStep\<rfloor>;
          residual = roughStep / magnitude
      in if residual \<le> 1.5 then 1 * magnitude
         else if residual \<le> 3 then 2 * magnitude
         else if residual \<le> 7 then 5 * magnitude
         else 10 * magnitude)"

definition calculateYTicks :: "real \<Rightarrow> real \<Rightarrow> int \<Rightarrow> real list option" where
  "calculateYTicks mn mx tickCount =
     (let range = mx - mn in
      if tickCount \<le> 0 then Some []
      else if tickCount = 1 then None
      else
        (let roughStep = range / (of_int tickCount - 1) in
         if roughStep < 0 then None
         else
           (let step = (if roughStep = 0 then 0 else niceStep roughStep)
            in Some (map (\<lambda>i. mathRound (of_nat i * step * 100) / 100) [0 ..< nat tickCount]))))"


section \<open>Rendering a discovery\<close>

text \<open>
  \<^verbatim>\<open>escapeHtml(text)\<close> of the report page writes the text into an element and reads
  \<^verbatim>\<open>innerHTML\<close> back. The serialisation of a text node is not code of the client; by the
  HTML standard it replaces the ampersand, the no-break space and the two angle brackets
  and leaves every other character, the quotation mark included.
\<close>

definition escapeHtml :: "jsstring \<Rightarrow> jsstring" where
  "escapeHtml s =
     concat (map (\<lambda>c. if c = 0x26 then lit ''&amp;''
                       else if c = 0xA0 then lit ''&nbsp;''
                       else if c = 0x3C then lit ''&lt;''
                       else if c = 0x3E then lit ''&gt;''
                       else [c]) s)"

text \<open>A number in a template literal: its decimal digits.\<close>

function decimal :: "nat \<Rightarrow> jsstring" where
  "decimal n = (if n < 10 then [0x30 + of_nat n]
                else decimal (n div 10) @ [0x30 + of_nat (n mod 10)])"
  by pat_completeness auto
termination
  by (relation "measure (\<lambda>n. n)") auto

declare decimal.simps [simp del]

text \<open>\<^verbatim>\<open>a || b\<close> where \<open>a\<close> is a string or absent and \<open>b\<close> a string.\<close>

definition strOr :: "jsstring option \<Rightarrow> jsstring \<Rightarrow> jsstring" where
  "strOr a b = (case a of None \<Rightarrow> b | Some s \<Rightarrow> if s = [] then b else s)"

text \<open>
  \<^verbatim>\<open>s.replace(searchString, replacement)\<close> with two strings: the first occurrence of the
  search string is replaced, and in the replacement \<^verbatim>\<open>$$\<close>, \<^verbatim>\<open>$&\<close>, \<^verbatim>\<open>$`\<close> and \<^verbatim>\<open>$'\<close> stand
  for a dollar sign, the match, the text before it and the text behind it (there are
  no groups, so \<^verbatim>\<open>$1\<close> stays as it is).
\<close>

fun findFirst :: "jsstring \<Rightarrow> jsstring \<Rightarrow> (jsstring \<times> jsstring) option" where
  "findFirst [] p = (if p = [] then Some ([], []) else None)"
| "findFirst (c # cs) p =
     (if startsWith (c # cs) p then Some ([], drop (length p) (c # cs))
      else map_option (\<lambda>(pre, post). (c # pre, post)) (findFirst cs p))"

fun getSubstitution :: "jsstring \<Rightarrow> jsstring \<Rightarrow> jsstring \<Rightarrow> jsstring \<Rightarrow> jsstring" where
  "getSubstitution matched pre post [] = []"
| "getSubstitution matched pre post [c] = [c]"
| "getSubstitution matched pre post (c # d # r) =
     (if c = 0x24 \<and> d = 0x24 then 0x24 # getSubstitution matched pre post r
      else if c = 0x24 \<and> d = 0x26 then matched @ getSubstitution matched pre post r
      else if c = 0x24 \<and> d = 0x60 then pre @ getSubstitution matched pre post r
      else if c = 0x24 \<and> d = 0x27 then post @ getSubstitution matched pre post r
      else c # getSubstitution matched pre post (d # r))"

definition replaceFirst :: "jsstring \<Rightarrow> jsstring \<Rightarrow> jsstring \<Rightarrow> jsstring" where
  "replaceFirst s searchString replacement =
     (case findFirst s searchString of
        None \<Rightarrow> s
      | Some (pre, post) \<Rightarrow>
          pre @ getSubstitution searchString pre post replacement @ post)"

text \<open>
  The fallback of \<^verbatim>\<open>renderMarkdown\<close> on the report page, used when the library \<^verbatim>\<open>marked\<close>
  is not loaded: \<^verbatim>\<open>/\*\*(.*?)\*\*/g\<close>, \<^verbatim>\<open>/\*(.*?)\*/g\<close>, \<^verbatim>\<open>/`(.*?)`/g\<close> and \<^verbatim>\<open>/\n/g\<close>. The
  dot is any code unit but a line terminator.
\<close>

definition dot :: regex where
  "dot = Chr (\<lambda>c. c \<noteq> 0x0A \<and> c \<noteq> 0x0D \<and> c \<noteq> 0x2028 \<and> c \<noteq> 0x2029)"

definition strongText :: regex where
  "strongText = Seq (str (lit ''**'')) (Seq (Grp (Lazy dot)) (str (lit ''**'')))"

definition emText :: regex where
  "emText = Seq (ch 0x2A) (Seq (Grp (Lazy dot)) (ch 0x2A))"

definition codeText :: regex where
  "codeText = Seq (ch 0x60) (Seq (Grp (Lazy dot)) (ch 0x60))"

text \<open>
  \<^verbatim>\<open>renderMarkdown(text)\<close> of the report page. The library is a parameter: \<open>Some parse\<close>
  when \<^verbatim>\<open>marked\<close> is defined (\<open>parse\<close> is \<^verbatim>\<open>marked.parse\<close> with the renderer that drops links),
  \<open>None\<close> when it is not.
\<close>

definition renderMarkdown :: "(jsstring \<Rightarrow> jsstring) option \<Rightarrow> jsstring \<Rightarrow> jsstring" where
  "renderMarkdown marked s =
     (if s = [] then []
      else
        (let cleanedText = cleanHtmlAndUrls s;
             cleanedText = fixMarkdownTables cleanedText
         in case marked of
              Some parse \<Rightarrow> parse cleanedText
            | None \<Rightarrow>
                replaceAll (ch 0x0A) [Txt (lit ''<br>'')]
                  (replaceAll codeText [Txt (lit ''<code>''), Ref 1, Txt (lit ''</code>'')]
                     (replaceAll emText [Txt (lit ''<em>''), Ref 1, Txt (lit ''</em>'')]
                        (replaceAll strongText
                           [Txt (lit ''<strong>''), Ref 1, Txt (lit ''</strong>'')]
                           cleanedText)))))"

text \<open>
  A chart of a discovery, as far as the rendering of the discovery reads it: its id,
  its title and \<open>chart_data\<close>, the text that \<^verbatim>\<open>encodeChartData(chart)\<close> returns (the Base64
  form of the chart's JSON text, or the empty string when the encoding fails).
\<close>

record chart =
  chart_id :: "jsstring option"
  chart_title :: "jsstring option"
  chart_data :: jsstring

record discovery =
  d_insight :: "jsstring option"
  d_content :: "jsstring option"
  d_title :: "jsstring option"
  d_charts :: "chart list"
  d_data_interpretation :: "jsstring option"

text \<open>The container id \<^verbatim>\<open>`chart-${index}-${cIndex}`\<close>.\<close>

definition chartContainerId :: "nat \<Rightarrow> nat \<Rightarrow> jsstring" where
  "chartContainerId index cIndex = lit ''chart-'' @ decimal index @ lit ''-'' @ decimal cIndex"

text \<open>\<^verbatim>\<open>renderChartContainer(chart, chartId)\<close>; the default title is the two CJK characters
  for "chart".\<close>

definition renderChartContainer :: "chart \<Rightarrow> jsstring \<Rightarrow> jsstring" where
  \<open>renderChartContainer chart chartId =
     lit ''\<newline>        <div class="chart-container">\<newline>            <h4 class="chart-title">''
     @ escapeHtml (strOr (chart_title chart) [0x56FE, 0x8868])
     @ lit ''</h4>\<newline>            <div class="chart-wrapper" id="''
     @ chartId @ lit ''" data-chart="'' @ chart_data chart
     @ lit ''"></div>\<newline>        </div>\<newline>    ''\<close>

text \<open>The first \<^verbatim>\<open>forEach\<close> of \<^verbatim>\<open>renderDiscovery\<close>: every chart in turn replaces the first
  occurrence of its placeholder (as it is, or else HTML-escaped) in the insight.\<close>

fun placeCharts :: "nat \<Rightarrow> nat \<Rightarrow> chart list \<Rightarrow> jsstring \<Rightarrow> jsstring" where
  "placeCharts index cIndex [] insightHtml = insightHtml"
| "placeCharts index cIndex (chart # charts) insightHtml =
     (let chartId = strOr (chart_id chart) (chartContainerId index cIndex);
          placeholder = lit ''{{CHART:'' @ chartId @ lit ''}}'';
          chartHtml = renderChartContainer chart (chartContainerId index cIndex)
      in placeCharts index (Suc cIndex) charts
           (if includesStr insightHtml placeholder
            then replaceFirst insightHtml placeholder chartHtml
            else if includesStr insightHtml (escapeHtml placeholder)
            then replaceFirst insightHtml (escapeHtml placeholder) chartHtml
            else insightHtml))"

text \<open>The second \<^verbatim>\<open>forEach\<close>: a chart whose container id is not found in the insight is
  appended to the output.\<close>

fun appendCharts :: "nat \<Rightarrow> nat \<Rightarrow> chart list \<Rightarrow> jsstring \<Rightarrow> jsstring \<Rightarrow> jsstring" where
  "appendCharts index cIndex [] insightHtml html = html"
| \<open>appendCharts index cIndex (chart # charts) insightHtml html =
     appendCharts index (Suc cIndex) charts insightHtml
       (if \<not> includesStr insightHtml (lit ''id="'' @ chartContainerId index cIndex @ lit ''"'')
        then html @ renderChartContainer chart (chartContainerId index cIndex)
        else html)\<close>

text \<open>
  \<^verbatim>\<open>renderDiscovery(discovery, index)\<close>. The default title is the two CJK characters for
  "discovery", a space and the number of the discovery; the interpretation is
  introduced by an emoji (two code units) and a space.
\<close>

definition renderDiscovery ::
  "(jsstring \<Rightarrow> jsstring) option \<Rightarrow> discovery \<Rightarrow> nat \<Rightarrow> jsstring" where
  \<open>renderDiscovery marked discovery index =
     (let insightContent = strOr (d_insight discovery) (strOr (d_content discovery) []);
          insightHtml = renderMarkdown marked insightContent;
          insightHtml = placeCharts index 0 (d_charts discovery) insightHtml;
          html = lit ''\<newline>        <div class="discovery">\<newline>            <h3 class="discovery-title">''
                 @ escapeHtml (strOr (d_title discovery)
                     ([0x53D1, 0x73B0, 0x20] @ decimal (index + 1)))
                 @ lit ''</h3>\<newline>            <div class="discovery-content markdown-content">\<newline>                ''
                 @ insightHtml
                 @ lit ''\<newline>            </div>\<newline>    '';
          html = appendCharts index 0 (d_charts discovery) insightHtml html;
          html = (if strOr (d_data_interpretation discovery) [] \<noteq> []
                  then html @ lit ''<div class="discovery-interpretation">'' @ [0xD83D, 0xDCA1, 0x20]
                         @ escapeHtml (strOr (d_data_interpretation discovery) [])
                         @ lit ''</div>''
                  else html)
      in html @ lit ''</div>'')\<close>


section \<open>Auxiliary notions for the proofs about regular expressions\<close>

text \<open>The equations of the star and of the loops are unfolded by hand in the proofs.\<close>

declare rmatch.simps(5,6) [simp del]
declare replaceAll.simps [simp del]
declare mergeLines.simps(2) [simp del]


text \<open>\<open>mustHave x r\<close>: by its shape, \<open>r\<close> matches only texts in which the code unit \<open>x\<close>
  occurs.\<close>

fun mustHave :: "jschar \<Rightarrow> regex \<Rightarrow> bool" where
  "mustHave x (Chr p) = (\<forall>y. p y \<longrightarrow> y = x)"
| "mustHave x Eps = False"
| "mustHave x (Seq a b) = (mustHave x a \<or> mustHave x b)"
| "mustHave x (Alt a b) = (mustHave x a \<and> mustHave x b)"
| "mustHave x (Star a) = False"
| "mustHave x (Lazy a) = False"
| "mustHave x (Grp a) = mustHave x a"


text \<open>The code units that a replacement text can add to those of its subject.\<close>

fun tchars :: "tpart list \<Rightarrow> jschar set" where
  "tchars [] = {}"
| "tchars (Txt t # ps) = set t \<union> tchars ps"
| "tchars (Ref n # ps) = {0x24, 0x30 + of_nat n} \<union> tchars ps"



section \<open>Properties of frame reassembly\<close>

lemma splitOn_nonempty: "splitOn sep s \<noteq> []"
  by (induction sep s rule: splitOn.induct) (simp_all split: list.splits)

lemma splitOn_single: "splitOn sep s = [r] \<Longrightarrow> r = s"
proof (induction sep s arbitrary: r rule: splitOn.induct)
  case (1 sep)
  then show ?case by simp
next
  case (2 sep c cs)
  show ?case
  proof (cases "sep \<noteq> [] \<and> startsWith (c # cs) sep")
    case True
    then show ?thesis using 2(3) by (simp add: splitOn_nonempty)
  next
    case False
    obtain r' rs where rrs: "splitOn sep cs = r' # rs"
      using splitOn_nonempty by (cases "splitOn sep cs") auto
    with False 2(3) have "rs = []" "r = c # r'" by auto
    with 2(2) [OF False] rrs show ?thesis by simp
  qed
qed

lemma startsWith_length: "startsWith x sep \<Longrightarrow> length sep \<le> length x"
proof -
  assume "startsWith x sep"
  then have "length (take (length sep) x) = length sep" by (simp add: startsWith_def)
  then show ?thesis by simp
qed

lemma startsWith_append:
  "startsWith x sep \<Longrightarrow> startsWith (x @ y) sep"
  using startsWith_length [of x sep] by (simp add: startsWith_def)

lemma startsWith_append_only:
  "startsWith (x @ y) sep \<Longrightarrow> \<not> startsWith x sep \<Longrightarrow> length x < length sep"
  unfolding startsWith_def by (cases "length sep \<le> length x") auto

lemma splitOn_short: "length s < length sep \<Longrightarrow> splitOn sep s = [s]"
proof (induction sep s rule: splitOn.induct)
  case (1 sep)
  then show ?case by simp
next
  case (2 sep c cs)
  have ns: "\<not> startsWith (c # cs) sep"
    using 2(3) startsWith_length by fastforce
  have "splitOn sep cs = [cs]" using 2(2) ns 2(3) by simp
  then show ?case using ns by simp
qed

text \<open>
  Splitting a text that arrives in two pieces: the segments that are complete in the
  first piece stay as they are, and the rest of the split is that of the unfinished last
  segment followed by the second piece.
\<close>

lemma splitOn_append:
  "sep \<noteq> [] \<Longrightarrow>
   splitOn sep (x @ y) = butlast (splitOn sep x) @ splitOn sep (last (splitOn sep x) @ y)"
proof (induction sep x rule: splitOn.induct)
  case (1 sep)
  then show ?case by simp
next
  case (2 sep c cs)
  consider (here) "startsWith (c # cs) sep"
    | (later) "\<not> startsWith (c # cs) sep" "startsWith ((c # cs) @ y) sep"
    | (none) "\<not> startsWith (c # cs) sep" "\<not> startsWith ((c # cs) @ y) sep"
    by blast
  then show ?case
  proof cases
    case here
    have len: "length sep \<le> length (c # cs)" using here by (rule startsWith_length)
    have ih: "splitOn sep (drop (length sep) (c # cs) @ y) =
        butlast (splitOn sep (drop (length sep) (c # cs)))
          @ splitOn sep (last (splitOn sep (drop (length sep) (c # cs))) @ y)"
      using 2(1) 2(3) here by blast
    have sy: "startsWith (c # (cs @ y)) sep" using startsWith_append [OF here, of y] by simp
    have "drop (length sep) ((c # cs) @ y) = drop (length sep) (c # cs) @ y"
      using len by (simp only: drop_append) simp
    then have d: "drop (length sep) (c # (cs @ y)) = drop (length sep) (c # cs) @ y"
      by simp
    have l: "splitOn sep ((c # cs) @ y) = [] # splitOn sep (drop (length sep) (c # cs) @ y)"
      using 2(3) sy d by (simp del: drop_Suc_Cons)
    have r: "splitOn sep (c # cs) = [] # splitOn sep (drop (length sep) (c # cs))"
      using 2(3) here by simp
    show ?thesis unfolding l r using ih by (simp add: splitOn_nonempty)
  next
    case later
    have "length (c # cs) < length sep" using later startsWith_append_only by blast
    then have "splitOn sep (c # cs) = [c # cs]" by (rule splitOn_short)
    then show ?thesis by simp
  next
    case none
    have ih: "splitOn sep (cs @ y) =
        butlast (splitOn sep cs) @ splitOn sep (last (splitOn sep cs) @ y)"
      using 2(2) 2(3) none by blast
    obtain r rs where rrs: "splitOn sep cs = r # rs"
      using splitOn_nonempty by (cases "splitOn sep cs") auto
    have lhs: "splitOn sep ((c # cs) @ y) =
        (case splitOn sep (cs @ y) of [] \<Rightarrow> [[c]] | r # rs \<Rightarrow> (c # r) # rs)"
      using none by simp
    have rhs: "splitOn sep (c # cs) = (c # r) # rs" using none rrs by simp
    show ?thesis
    proof (cases rs)
      case Nil
      then have "r = cs" using rrs splitOn_single by blast
      then show ?thesis using rhs Nil by simp
    next
      case (Cons a as)
      then show ?thesis unfolding lhs rhs ih rrs by simp
    qed
  qed
qed

lemma blank_line_nonempty: "lit ''\<newline>\<newline>'' \<noteq> []"
  by (simp add: lit_def)

lemma split_blank_append:
  "split (x @ y) (lit ''\<newline>\<newline>'') =
     butlast (split x (lit ''\<newline>\<newline>''))
       @ split (popped (split x (lit ''\<newline>\<newline>'')) @ y) (lit ''\<newline>\<newline>'')"
  using splitOn_append [OF blank_line_nonempty, of x y]
  by (simp add: split_def popped_def blank_line_nonempty splitOn_nonempty)

lemma split_blank_nonempty: "split x (lit ''\<newline>\<newline>'') \<noteq> []"
  by (simp add: split_def blank_line_nonempty splitOn_nonempty)

text \<open>What the loop has emitted after at least one chunk: the frames of every segment of
  the text received so far, the last segment excepted.\<close>

lemma frames_whole:
  "chunks \<noteq> [] \<Longrightarrow>
   frames parse chunks buffer =
     concat (map (messageEvents parse)
       (butlast (split (buffer @ concat chunks) (lit ''\<newline>\<newline>''))))"
proof (induction chunks arbitrary: buffer)
  case Nil
  then show ?case by simp
next
  case (Cons c cs)
  show ?case
  proof (cases cs)
    case Nil
    then show ?thesis by (simp add: Let_def)
  next
    case (Cons c' cs')
    then have ne: "cs \<noteq> []" by simp
    let ?M = "split (buffer @ c) (lit ''\<newline>\<newline>'')"
    have ih: "frames parse cs (popped ?M) =
        concat (map (messageEvents parse)
          (butlast (split (popped ?M @ concat cs) (lit ''\<newline>\<newline>''))))"
      using Cons.IH [OF ne] .
    have sp: "split (buffer @ concat (c # cs)) (lit ''\<newline>\<newline>'') =
        butlast ?M @ split (popped ?M @ concat cs) (lit ''\<newline>\<newline>'')"
      using split_blank_append [of "buffer @ c" "concat cs"] by simp
    have "frames parse (c # cs) buffer =
        concat (map (messageEvents parse) (butlast ?M)) @ frames parse cs (popped ?M)"
      by (simp add: Let_def)
    then show ?thesis unfolding ih sp
      by (simp add: butlast_append split_blank_nonempty)
  qed
qed

text \<open>
  Claim C1. Frame reassembly does not depend on where the stream is cut into chunks:
  for every text and every way of cutting it into chunks (empty chunks and single code
  units included), the read loop hands the handler the same frames in the same order
  as when the whole text arrives as one chunk. A streaming \<^verbatim>\<open>TextDecoder\<close> returns, read
  after read, pieces of the decoded text, so cutting the bytes anywhere cuts the text
  into such chunks.
\<close>

theorem frame_reassembly_chunking_invariant:
  "frames parse chunks [] = frames parse [concat chunks] []
   \<and> frames parse (map (\<lambda>c. [c]) s) [] = frames parse [s] []"
proof -
  have whole: "frames parse cs [] = frames parse [concat cs] []" for cs
  proof (cases cs)
    case Nil
    then show ?thesis by (simp add: split_def lit_def)
  next
    case (Cons c cs')
    then have "cs \<noteq> []" by simp
    then show ?thesis
      using frames_whole [of cs parse "[]"] frames_whole [of "[concat cs]" parse "[]"]
      by simp
  qed
  have "concat (map (\<lambda>c. [c]) s) = s" by (induction s) simp_all
  then show ?thesis using whole [of chunks] whole [of "map (\<lambda>c. [c]) s"] by simp
qed


section \<open>Properties of the event handler\<close>

lemma handleStreamEvent_thinking:
  "thinking (snd (handleStreamEvent e (g, s))) = thinking s @ concat [c. Thinking c \<leftarrow> [e]]"
  by (cases e) (simp_all add: Let_def)

lemma handleStreamEvent_analysis:
  "analysis (snd (handleStreamEvent e (g, s))) = analysis s @ concat [c. Analysis c \<leftarrow> [e]]"
  by (cases e) (simp_all add: Let_def)

lemma handleStreamEvent_sql:
  "sql (snd (handleStreamEvent e (g, s))) = last (sql s # [q. Sql q \<leftarrow> [e]])"
  by (cases e) (simp_all add: Let_def)

lemma handleStreamEvent_data:
  "data (snd (handleStreamEvent e (g, s))) = last (data s # [d. Data d \<leftarrow> [e]])"
  by (cases e) (simp_all add: Let_def)

lemma handleStreamEvent_content:
  "\<not> isClarification e \<Longrightarrow>
   content (snd (handleStreamEvent e (g, s))) = content s @ concat [c. Content c \<leftarrow> [e]]"
  by (cases e) (simp_all add: Let_def)

lemma handleEvents_thinking:
  "thinking (snd (handleEvents es (g, s))) = thinking s @ concat [c. Thinking c \<leftarrow> es]"
proof (induction es arbitrary: g s)
  case Nil
  then show ?case by simp
next
  case (Cons e es)
  obtain g' s' where st: "handleStreamEvent e (g, s) = (g', s')"
    by (cases "handleStreamEvent e (g, s)")
  have "thinking s' = thinking s @ concat [c. Thinking c \<leftarrow> [e]]"
    using handleStreamEvent_thinking [of e g s] st by simp
  then show ?case using Cons [of g' s'] st by simp
qed

lemma handleEvents_analysis:
  "analysis (snd (handleEvents es (g, s))) = analysis s @ concat [c. Analysis c \<leftarrow> es]"
proof (induction es arbitrary: g s)
  case Nil
  then show ?case by simp
next
  case (Cons e es)
  obtain g' s' where st: "handleStreamEvent e (g, s) = (g', s')"
    by (cases "handleStreamEvent e (g, s)")
  have "analysis s' = analysis s @ concat [c. Analysis c \<leftarrow> [e]]"
    using handleStreamEvent_analysis [of e g s] st by simp
  then show ?case using Cons [of g' s'] st by simp
qed

lemma handleEvents_content:
  "\<not> list_ex isClarification es \<Longrightarrow>
   content (snd (handleEvents es (g, s))) = content s @ concat [c. Content c \<leftarrow> es]"
proof (induction es arbitrary: g s)
  case Nil
  then show ?case by simp
next
  case (Cons e es)
  obtain g' s' where st: "handleStreamEvent e (g, s) = (g', s')"
    by (cases "handleStreamEvent e (g, s)")
  have "content s' = content s @ concat [c. Content c \<leftarrow> [e]]"
    using handleStreamEvent_content [of e g s] st Cons.prems by simp
  then show ?case using Cons.IH [of g' s'] Cons.prems st by simp
qed

lemma handleEvents_sql:
  "sql (snd (handleEvents es (g, s))) = last (sql s # [q. Sql q \<leftarrow> es])"
proof (induction es arbitrary: g s)
  case Nil
  then show ?case by simp
next
  case (Cons e es)
  obtain g' s' where st: "handleStreamEvent e (g, s) = (g', s')"
    by (cases "handleStreamEvent e (g, s)")
  have "sql s' = last (sql s # [q. Sql q \<leftarrow> [e]])"
    using handleStreamEvent_sql [of e g s] st by simp
  then show ?case using Cons [of g' s'] st by (cases e) simp_all
qed

lemma handleEvents_data:
  "data (snd (handleEvents es (g, s))) = last (data s # [d. Data d \<leftarrow> es])"
proof (induction es arbitrary: g s)
  case Nil
  then show ?case by simp
next
  case (Cons e es)
  obtain g' s' where st: "handleStreamEvent e (g, s) = (g', s')"
    by (cases "handleStreamEvent e (g, s)")
  have "data s' = last (data s # [d. Data d \<leftarrow> [e]])"
    using handleStreamEvent_data [of e g s] st by simp
  then show ?case using Cons [of g' s'] st by (cases e) simp_all
qed

text \<open>
  Claim C2, as the code has it. For every event sequence applied to a fresh draft,
  \<open>thinking\<close> and \<open>analysis\<close> are the concatenation, in order, of the payloads of their
  delta events, \<open>sql\<close> is the payload of the last \<open>sql\<close> event and \<open>data\<close> that of the last
  \<open>data\<close> event (\<open>null\<close> when there was none); \<open>content\<close> is the concatenation of the
  \<open>content\<close> deltas when the sequence holds no \<open>clarification\<close> event.
\<close>

theorem draft_fields_after_events:
  "thinking (snd (handleEvents es (g, freshStreamState))) = concat [c. Thinking c \<leftarrow> es]
   \<and> analysis (snd (handleEvents es (g, freshStreamState))) = concat [c. Analysis c \<leftarrow> es]
   \<and> sql (snd (handleEvents es (g, freshStreamState))) = last (JNull # [q. Sql q \<leftarrow> es])
   \<and> data (snd (handleEvents es (g, freshStreamState))) = last (JNull # [d. Data d \<leftarrow> es])
   \<and> (\<not> list_ex isClarification es \<longrightarrow>
        content (snd (handleEvents es (g, freshStreamState))) = concat [c. Content c \<leftarrow> es])"
  using handleEvents_thinking [of es g freshStreamState]
    handleEvents_analysis [of es g freshStreamState]
    handleEvents_sql [of es g freshStreamState]
    handleEvents_data [of es g freshStreamState]
    handleEvents_content [of es g freshStreamState]
  by (simp add: freshStreamState_def)

theorem draft_fields_after_events_witness:
  "\<not> list_ex isClarification
       [Thinking (lit ''t''), Content (lit ''a''), Sql (JStr (lit ''q'')), Data (JNum 1),
        Content (lit ''b''), Data (JNum 2), Analysis (lit ''z'')]
   \<and> content (snd (handleEvents
       [Thinking (lit ''t''), Content (lit ''a''), Sql (JStr (lit ''q'')), Data (JNum 1),
        Content (lit ''b''), Data (JNum 2), Analysis (lit ''z'')]
       (initialState, freshStreamState))) = lit ''ab''
   \<and> data (snd (handleEvents
       [Thinking (lit ''t''), Content (lit ''a''), Sql (JStr (lit ''q'')), Data (JNum 1),
        Content (lit ''b''), Data (JNum 2), Analysis (lit ''z'')]
       (initialState, freshStreamState))) = JNum 2"
  using draft_fields_after_events
    [of "[Thinking (lit ''t''), Content (lit ''a''), Sql (JStr (lit ''q'')), Data (JNum 1),
          Content (lit ''b''), Data (JNum 2), Analysis (lit ''z'')]" initialState]
  by (simp add: lit_def)

text \<open>
  The claim as the specification words it fails: after a \<open>content\<close> delta and a
  \<open>clarification\<close> event the content is the waiting notice, not the delta.
\<close>

theorem content_after_clarification_counterexample:
  "content (snd (handleEvents
       [Content (lit ''a''),
        Clarification \<lparr> ev_rewritten_request = JStr (lit ''r''), ev_original_intent = JUndefined,
          ev_original_request = JStr (lit ''o''), ev_messages_context = JUndefined,
          ev_tool_call_id = JUndefined \<rparr>]
       (initialState, freshStreamState)))
     \<noteq> concat [c. Content c \<leftarrow>
       [Content (lit ''a''),
        Clarification \<lparr> ev_rewritten_request = JStr (lit ''r''), ev_original_intent = JUndefined,
          ev_original_request = JStr (lit ''o''), ev_messages_context = JUndefined,
          ev_tool_call_id = JUndefined \<rparr>]]"
  by (simp add: jsor_def Let_def waitingForConfirmation_def lit_def)

lemma handleStreamEvent_Error: "handleStreamEvent (Error e) st = st"
  by (cases st) simp

lemma handleEvents_append:
  "handleEvents (es @ es') st = handleEvents es' (handleEvents es st)"
  by (induction es arbitrary: st) simp_all

text \<open>The read loop does to the state what the handler does on the frames, one after
  the other.\<close>

lemma readLoop_frames:
  "readLoop parse chunks buffer st = handleEvents (frames parse chunks buffer) st"
  by (induction chunks arbitrary: buffer st) (simp_all add: Let_def handleEvents_append)

text \<open>
  Claim C9, as the code has it. An \<open>error\<close> event changes neither the draft nor the
  session state (its branch only shows the message), and the events that follow it are
  handled as if it had not been there: the error is not terminal.
\<close>

theorem error_event_leaves_draft_and_stream:
  "handleStreamEvent (Error e) st = st
   \<and> handleEvents (es @ Error e # es') st = handleEvents (es @ es') st"
  by (simp add: handleEvents_append handleStreamEvent_Error)

text \<open>The claim as the specification words it fails: a \<open>content\<close> delta that arrives after
  an \<open>error\<close> event is appended to the draft.\<close>

theorem error_terminal_counterexample:
  "content (snd (handleEvents [Error JUndefined, Content (lit ''x'')]
       (initialState, freshStreamState)))
     \<noteq> content (snd (handleEvents [Error JUndefined] (initialState, freshStreamState)))"
  by (simp add: freshStreamState_def lit_def)

lemma handleStreamEvent_pending:
  "\<not> isClarification e \<Longrightarrow>
   pendingClarification (fst (handleStreamEvent e (g, s))) = pendingClarification g"
  by (cases e) (simp_all add: Let_def)

lemma handleEvents_pending:
  "\<not> list_ex isClarification es \<Longrightarrow>
   pendingClarification (fst (handleEvents es (g, s))) = pendingClarification g"
proof (induction es arbitrary: g s)
  case Nil
  then show ?case by simp
next
  case (Cons e es)
  obtain g' s' where st: "handleStreamEvent e (g, s) = (g', s')"
    by (cases "handleStreamEvent e (g, s)")
  have "pendingClarification g' = pendingClarification g"
    using handleStreamEvent_pending [of e g s] st Cons.prems by simp
  then show ?case using Cons.IH [of g' s'] Cons.prems st by simp
qed

text \<open>
  Claim C3. Let a \<open>clarification\<close> event be handled (its two request texts are strings
  or absent, so the handler does not throw), followed by any events other than a
  clarification, and let the user confirm a text that is not blank. Then the pending
  state holds the snapshot \<^verbatim>\<open>event.original_request || ''\<close>,
  \<^verbatim>\<open>event.messages_context || null\<close>, \<^verbatim>\<open>event.tool_call_id || null\<close>; the request that is
  sent carries these three values as they are in the snapshot; and the pending state is
  already cleared in the state in which the request is sent.
\<close>

theorem clarification_round_trip:
  assumes "isString (jsor (ev_rewritten_request e) (JStr []))"
    and "isString (jsor (ev_original_request e) (JStr []))"
    and "\<not> list_ex isClarification es"
    and "trim v \<noteq> []"
  shows "\<exists>pc req g'.
      pendingClarification (fst (handleEvents (Clarification e # es) (g, s))) = Some pc
      \<and> original_request pc = jsor (ev_original_request e) (JStr [])
      \<and> messages_context pc = jsor (ev_messages_context e) JNull
      \<and> tool_call_id pc = jsor (ev_tool_call_id e) JNull
      \<and> confirmClarification (Some v) (fst (handleEvents (Clarification e # es) (g, s)))
          = Some (req, g')
      \<and> req_original_request req = original_request pc
      \<and> req_messages_context req = messages_context pc
      \<and> req_tool_call_id req = tool_call_id pc
      \<and> pendingClarification g' = None"
proof -
  obtain g1 s1 where st: "handleStreamEvent (Clarification e) (g, s) = (g1, s1)"
    by (cases "handleStreamEvent (Clarification e) (g, s)")
  let ?pc = "\<lparr> rewritten_request = jsor (ev_rewritten_request e) (JStr []),
      original_intent = jsor (ev_original_intent e) (JStr []),
      original_request = jsor (ev_original_request e) (JStr []),
      messages_context = jsor (ev_messages_context e) JNull,
      tool_call_id = jsor (ev_tool_call_id e) JNull \<rparr>"
  have g1: "pendingClarification g1 = Some ?pc"
    using st assms(1,2) by (auto simp: Let_def)
  have "pendingClarification (fst (handleEvents es (g1, s1))) = pendingClarification g1"
    using handleEvents_pending [OF assms(3)] .
  then have p: "pendingClarification (fst (handleEvents (Clarification e # es) (g, s))) = Some ?pc"
    using st g1 by simp
  show ?thesis
    using p assms(4) by (simp add: confirmClarification_def Let_def)
qed

theorem clarification_round_trip_witness:
  "isString (jsor (JStr (lit ''rewritten'')) (JStr []))
   \<and> isString (jsor (JStr (lit ''original'')) (JStr []))
   \<and> \<not> list_ex isClarification [Done]
   \<and> trim (lit '' ok '') \<noteq> []
   \<and> (\<exists>req g'.
        confirmClarification (Some (lit '' ok ''))
          (fst (handleEvents
            [Clarification \<lparr> ev_rewritten_request = JStr (lit ''rewritten''),
               ev_original_intent = JUndefined, ev_original_request = JStr (lit ''original''),
               ev_messages_context = JArr [JStr (lit ''m'')],
               ev_tool_call_id = JStr (lit ''call_1'') \<rparr>, Done]
            (initialState, freshStreamState))) = Some (req, g')
        \<and> req_original_request req = JStr (lit ''original'')
        \<and> req_messages_context req = JArr [JStr (lit ''m'')]
        \<and> req_tool_call_id req = JStr (lit ''call_1'')
        \<and> pendingClarification g' = None)"
proof -
  have t: "trim (lit '' ok '') \<noteq> []"
    by (simp add: trim_def trimStart_def trimEnd_def lit_def isWhiteSpace_def)
  have a: "isString (jsor (ev_rewritten_request
      \<lparr> ev_rewritten_request = JStr (lit ''rewritten''),
         ev_original_intent = JUndefined, ev_original_request = JStr (lit ''original''),
         ev_messages_context = JArr [JStr (lit ''m'')],
         ev_tool_call_id = JStr (lit ''call_1'') \<rparr>) (JStr []))"
    by (simp add: jsor_def lit_def)
  have b: "isString (jsor (ev_original_request
      \<lparr> ev_rewritten_request = JStr (lit ''rewritten''),
         ev_original_intent = JUndefined, ev_original_request = JStr (lit ''original''),
         ev_messages_context = JArr [JStr (lit ''m'')],
         ev_tool_call_id = JStr (lit ''call_1'') \<rparr>) (JStr []))"
    by (simp add: jsor_def lit_def)
  have c: "\<not> list_ex isClarification [Done]" by simp
  show ?thesis
    using clarification_round_trip [OF a b c t, of initialState freshStreamState] t
    by (auto simp: jsor_def lit_def)
qed


section \<open>Tick generation on the example of the specification\<close>

lemma floor_log10_rough_step: "\<lfloor>log 10 (93 / 4)\<rfloor> = 1"
proof -
  have "(10::real) powr of_int 1 \<le> 93 / 4" by simp
  moreover have "(93 / 4 :: real) < 10 powr of_int (1 + 1)" by simp
  ultimately show ?thesis
    using floor_log_eq_powr_iff [of "93 / 4" 10 1] by simp
qed

lemma niceStep_rough_step: "niceStep (93 / 4) = 20"
  by (simp add: niceStep_def floor_log10_rough_step Let_def)

text \<open>
  Claim C7. For the input \<open>(0, 93, 5)\<close> the rough step is \<open>93 / 4 = 23.25\<close>, the step that is
  chosen is \<open>20 = 2 \<times> 10\<^sup>1\<close>, a member of the nice set (not \<open>18.6\<close>), and the result holds
  exactly five ticks, the multiples \<open>0, 20, 40, 60, 80\<close> of that step. On this input every
  intermediate value except the quotient \<open>23.25 / 10\<close> is exact in binary64, and that
  quotient is only compared with \<open>1.5\<close> and \<open>3\<close>, so the reals give what JavaScript
  computes.
\<close>

theorem ticks_0_93_5:
  "niceStep ((93 - 0) / (5 - 1)) = 2 * 10 ^ 1
   \<and> calculateYTicks 0 93 5 = Some [0, 20, 40, 60, 80]
   \<and> calculateYTicks 0 93 5
       = Some (map (\<lambda>i. real i * niceStep ((93 - 0) / (5 - 1))) [0 ..< 5])"
  by (simp add: calculateYTicks_def niceStep_rough_step mathRound_def upt_rec Let_def)


section \<open>Table repair on the example of the specification\<close>

text \<open>
  Claim C4. On the four lines \<^verbatim>\<open>A | B |\<close>, \<^verbatim>\<open>|---|---|\<close>, \<^verbatim>\<open>| x \<close> and \<^verbatim>\<open>| y |\<close> table repair
  joins the broken row and the fragment that follows it into the one complete row
  \<^verbatim>\<open>| x | y |\<close>: the result has the header, the separator and this single data row, whose
  two cells are \<open>x\<close> and \<open>y\<close> and whose column count is the one the separator gives.
\<close>

theorem table_repair_example:
  "fixMarkdownTables (lit ''A | B |\<newline>|---|---|\<newline>| x \<newline>| y |'')
     = lit ''A | B |\<newline>|---|---|\<newline>| x | y |''
   \<and> split (fixMarkdownTables (lit ''A | B |\<newline>|---|---|\<newline>| x \<newline>| y |''))
         (lit ''\<newline>'')
       = [lit ''A | B |'', lit ''|---|---|'', lit ''| x | y |'']
   \<and> map trim (split (lit ''| x | y |'') (lit ''|'')) = [[], lit ''x'', lit ''y'', []]
   \<and> int (pipeCount (lit ''| x | y |'')) - 1
       = expectedColumns (split (lit ''A | B |\<newline>|---|---|\<newline>| x \<newline>| y |'')
           (lit ''\<newline>''))
   \<and> int (pipeCount (lit ''| x | y |'')) - 1 = 2"
  by code_simp


section \<open>Properties of chart-data sorting\<close>


lemma mset_insertSorted: "mset (insertSorted f x ys) = add_mset x (mset ys)"
  by (induction ys) simp_all

lemma mset_foldl_insertSorted:
  "mset (foldl (\<lambda>sorted x. insertSorted f x sorted) acc xs) = mset acc + mset xs"
  by (induction xs arbitrary: acc) (simp_all add: mset_insertSorted)

lemma mset_arraySort: "mset (arraySort f xs) = mset xs"
  by (simp add: arraySort_def mset_foldl_insertSorted)

lemma length_arraySort: "length (arraySort f xs) = length xs"
  using mset_arraySort [of f xs] by (metis size_mset)

lemma mset_sortChartData: "mset (sortChartData env rows xField) = mset rows"
  by (simp add: sortChartData_def mset_arraySort Let_def split: option.splits)

lemma length_sortChartData: "length (sortChartData env rows xField) = length rows"
  using mset_sortChartData [of env rows xField] by (metis size_mset)


lemma compareX_null_left:
  "isNullish (getProp a f) \<Longrightarrow> \<not> isNegative (compareX env f dl nm a b)"
  by (simp add: compareX_def Let_def)

lemma compareX_null_right:
  "\<not> isNullish (getProp a f) \<Longrightarrow> isNullish (getProp b f) \<Longrightarrow> isNegative (compareX env f dl nm a b)"
  by (simp add: compareX_def Let_def)

lemma set_insertSorted: "set (insertSorted g x ys) = insert x (set ys)"
  using mset_insertSorted [of g x ys] by (metis set_mset_add_mset_insert set_mset_mset)




lemma nullsLast_split:
  "sorted_wrt (\<lambda>a b. Q a \<longrightarrow> Q b) rs \<Longrightarrow> rs = filter (\<lambda>r. \<not> Q r) rs @ filter Q rs"
proof (induction rs)
  case Nil
  then show ?case by simp
next
  case (Cons r rs)
  show ?case
  proof (cases "Q r")
    case True
    then have "\<forall>x\<in>set rs. Q x" using Cons.prems by simp
    then have "filter (\<lambda>r. \<not> Q r) rs = []" "filter Q rs = rs" by (simp_all add: filter_empty_conv)
    then show ?thesis using True by simp
  next
    case False
    then show ?thesis using Cons by simp
  qed
qed

text \<open>
  The order of the null values does not hang on the sorting algorithm of the engine: in
  whatever arrangement each row and its right neighbour stand in an order that the
  comparator allows (it does not put the right one first, or it puts the left one
  first), the rows without an x value stand behind all the others.
\<close>

lemma nulls_last_of_neighbours:
  assumes "successively
      (\<lambda>a b. \<not> isNegative (compareX env f dl nm b a) \<or> isNegative (compareX env f dl nm a b)) ys"
  shows "ys = filter (\<lambda>r. \<not> isNullish (getProp r f)) ys @ filter (\<lambda>r. isNullish (getProp r f)) ys"
proof -
  let ?Q = "\<lambda>a b. isNullish (getProp a f) \<longrightarrow> isNullish (getProp b f)"
  have step: "?Q a b"
    if "\<not> isNegative (compareX env f dl nm b a) \<or> isNegative (compareX env f dl nm a b)" for a b
  proof
    assume n: "isNullish (getProp a f)"
    show "isNullish (getProp b f)"
    proof (rule ccontr)
      assume "\<not> isNullish (getProp b f)"
      then have "isNegative (compareX env f dl nm b a)" using n by (rule compareX_null_right)
      moreover have "\<not> isNegative (compareX env f dl nm a b)" using n by (rule compareX_null_left)
      ultimately show False using that by simp
    qed
  qed
  have s: "successively ?Q ys"
    by (rule successively_mono [OF assms]) (rule step)
  have tr: "transp ?Q" by (rule transpI) simp
  have "sorted_wrt ?Q ys" using s by (simp only: successively_conv_sorted_wrt [OF tr])
  then show ?thesis by (rule nullsLast_split)
qed





section \<open>The display cap of bar charts\<close>


lemma numOrZero_not_NaN: "numOrZero x \<noteq> NaN"
  by (cases x) simp_all

lemma numMinus_trans:
  "a \<noteq> NaN \<Longrightarrow> b \<noteq> NaN \<Longrightarrow> c \<noteq> NaN \<Longrightarrow>
   \<not> isNegative (numMinus b a) \<Longrightarrow> isNegative (numMinus b c) \<Longrightarrow> \<not> isNegative (numMinus c a)"
  by (cases a; cases b; cases c) simp_all

lemma numMinus_asym:
  "isNegative (numMinus b c) \<Longrightarrow> \<not> isNegative (numMinus c b)"
  by (cases b; cases c) simp_all


lemma descending_insertSorted:
  assumes "sorted_wrt (\<lambda>u v. \<not> isNegative (numMinus (yValue env y u) (yValue env y v))) ys"
  shows "sorted_wrt (\<lambda>u v. \<not> isNegative (numMinus (yValue env y u) (yValue env y v)))
           (insertSorted (compareYDesc env y) x ys)"
  using assms
proof (induction ys)
  case Nil
  then show ?case by simp
next
  case (Cons z zs)
  have nn: "yValue env y r \<noteq> NaN" for r by (simp add: yValue_def numOrZero_not_NaN)
  show ?case
  proof (cases "isNegative (compareYDesc env y x z)")
    case True
    then have lt: "isNegative (numMinus (yValue env y z) (yValue env y x))"
      by (simp add: compareYDesc_def yValue_def)
    have "\<not> isNegative (numMinus (yValue env y x) (yValue env y w))" if "w \<in> set (z # zs)" for w
    proof (cases "w = z")
      case True
      then show ?thesis using lt numMinus_asym by blast
    next
      case False
      then have "\<not> isNegative (numMinus (yValue env y z) (yValue env y w))"
        using that Cons.prems by simp
      then show ?thesis using lt numMinus_trans nn by blast
    qed
    then show ?thesis using True Cons.prems by simp
  next
    case False
    then have ge: "\<not> isNegative (numMinus (yValue env y z) (yValue env y x))"
      by (simp add: compareYDesc_def yValue_def)
    have "sorted_wrt (\<lambda>u v. \<not> isNegative (numMinus (yValue env y u) (yValue env y v)))
           (insertSorted (compareYDesc env y) x zs)"
      using Cons by simp
    then show ?thesis using False ge Cons.prems by (auto simp: set_insertSorted)
  qed
qed

lemma descending_foldl:
  "sorted_wrt (\<lambda>u v. \<not> isNegative (numMinus (yValue env y u) (yValue env y v))) acc \<Longrightarrow>
   sorted_wrt (\<lambda>u v. \<not> isNegative (numMinus (yValue env y u) (yValue env y v)))
     (foldl (\<lambda>sorted x. insertSorted (compareYDesc env y) x sorted) acc xs)"
  by (induction xs arbitrary: acc) (simp_all add: descending_insertSorted)

lemma descending_arraySort:
  "sorted_wrt (\<lambda>u v. \<not> isNegative (numMinus (yValue env y u) (yValue env y v)))
     (arraySort (compareYDesc env y) xs)"
  unfolding arraySort_def by (rule descending_foldl) simp

text \<open>
  \<^verbatim>\<open>renderBarChart\<close> keeps the cap: whenever it draws a chart of more than \<open>maxBarItems\<close>
  rows, it draws exactly \<open>maxBarItems\<close> of them, the first ones of the rows ranked by the
  first y field in descending order.
\<close>
lemma renderBarChart_cap:
  assumes "renderBarChart env dataSources rows = Some displayData"
    and "maxBarItems < length rows"
  shows "length displayData = maxBarItems
     \<and> (\<exists>y ranked. mset ranked = mset rows
          \<and> sorted_wrt (\<lambda>u v. \<not> isNegative (numMinus (yValue env y u) (yValue env y v))) ranked
          \<and> displayData = take maxBarItems ranked)"
proof -
  define dataKeys where "dataKeys = keys (firstRow rows)"
  define xField0 where "xField0 = (if dataSources \<noteq> []
                     then nameOr (xAxis (hd dataSources)) (x_axis (hd dataSources))
                     else first dataKeys)"
  define yFields0 where "yFields0 = (if dataSources \<noteq> []
                      then concat (map yAxisOf dataSources)
                      else filter (\<lambda>k. isNumber (getProp (firstRow rows) k)) (drop 1 dataKeys))"
  define xField where "xField = (if truthyName xField0 \<and> the xField0 \<notin> set dataKeys
                    then nameOr (findName (\<lambda>k. isString (getProp (firstRow rows) k)) dataKeys)
                           (first dataKeys)
                    else xField0)"
  define yFields1 where "yFields1 = filter (\<lambda>f. f \<in> set dataKeys) yFields0"
  define yFields where "yFields = (if yFields1 = []
                     then filter (\<lambda>k. Some k \<noteq> xField \<and> isNumber (getProp (firstRow rows) k)) dataKeys
                     else yFields1)"
  have eq: "renderBarChart env dataSources rows =
      (if \<not> truthyName xField \<or> yFields = [] then None
       else Some (if maxBarItems < length (sortChartData env rows xField) \<and> yFields \<noteq> []
                  then take maxBarItems (arraySort (compareYDesc env (first yFields))
                         (sortChartData env rows xField))
                  else sortChartData env rows xField))"
    unfolding renderBarChart_def Let_def yFields_def yFields1_def xField_def yFields0_def
      xField0_def dataKeys_def by (rule refl)
  have y: "yFields \<noteq> []" using assms(1) eq by (auto split: if_splits)
  let ?ranked = "arraySort (compareYDesc env (first yFields)) (sortChartData env rows xField)"
  have dd: "displayData = take maxBarItems ?ranked"
    using assms eq y by (auto simp: length_sortChartData split: if_splits)
  have m: "mset ?ranked = mset rows" by (simp add: mset_arraySort mset_sortChartData)
  have l: "length displayData = maxBarItems"
    using dd assms(2) by (simp add: length_arraySort length_sortChartData)
  show ?thesis using dd m l descending_arraySort [of env "first yFields"] by blast
qed

lemma rows21_parse:
  "parseChartFields [\<lparr> xAxis = Some (lit ''m''), x_axis = None, yAxis = Some [lit ''v''], y_axis = None \<rparr>]
     (map (\<lambda>i. [(lit ''m'', JNum (real i)), (lit ''v'', JNum (real i))]) [1 ..< 22])
   = (Some (lit ''m''), [lit ''v''])"
  by (simp add: parseChartFields_def nameOr_def truthyName_def yAxisOf_def keys_def firstRow_def upt_rec lit_def Let_def)

lemma rows21_first:
  "firstRow (map (\<lambda>i. [(lit ''m'', JNum (real i)), (lit ''v'', JNum (real i))]) [1 ..< 22])
     = [(lit ''m'', JNum 1), (lit ''v'', JNum 1)]"
  by (simp add: firstRow_def upt_rec)

lemma rows21_valid:
  "filter (\<lambda>d. \<not> isNullish (propAt d (Some (lit ''m''))) \<and> propAt d (Some (lit ''m'')) \<noteq> JStr []
        \<and> propAt d (Some (lit ''m'')) \<noteq> JStr (lit ''undefined''))
     (map (\<lambda>i. [(lit ''m'', JNum (real i)), (lit ''v'', JNum (real i))]) [1 ..< 22])
   = map (\<lambda>i. [(lit ''m'', JNum (real i)), (lit ''v'', JNum (real i))]) [1 ..< 22]"
  by (simp add: propAt_def getProp_def isNullish_def)

text \<open>
  Claim C6 at 21 rows. \<^verbatim>\<open>buildBarOption\<close>, the function that serves the report page's
  charts, cuts down to 20 rows only above 25 rows: of 21 rows with the fields \<open>m\<close> and \<open>v\<close>
  it shows all 21, where the claim and \<^verbatim>\<open>renderBarChart\<close> on the same input have 20.
\<close>

theorem bar_cap_21_rows:
  "length (buildBarOption env
      [\<lparr> xAxis = Some (lit ''m''), x_axis = None, yAxis = Some [lit ''v''], y_axis = None \<rparr>]
      (map (\<lambda>i. [(lit ''m'', JNum (real i)), (lit ''v'', JNum (real i))]) [1 ..< 22])) = 21
   \<and> map_option length (renderBarChart env
      [\<lparr> xAxis = Some (lit ''m''), x_axis = None, yAxis = Some [lit ''v''], y_axis = None \<rparr>]
      (map (\<lambda>i. [(lit ''m'', JNum (real i)), (lit ''v'', JNum (real i))]) [1 ..< 22])) = Some 20"
proof -
  let ?rows = "map (\<lambda>i. [(lit ''m'', JNum (real i)), (lit ''v'', JNum (real i))]) [1 ..< 22]"
  let ?ds = "[\<lparr> xAxis = Some (lit ''m''), x_axis = None, yAxis = Some [lit ''v''], y_axis = None \<rparr>]"
  have len: "length (sortChartData env ?rows (Some (lit ''m''))) = 21"
    by (simp add: length_sortChartData)
  have "buildBarOption env ?ds ?rows = sortChartData env ?rows (Some (lit ''m''))"
    unfolding buildBarOption_def rows21_parse prod.case Let_def rows21_valid
    using len by simp
  then have a: "length (buildBarOption env ?ds ?rows) = 21" using len by simp
  have "renderBarChart env ?ds ?rows
      = Some (take 20 (arraySort (compareYDesc env (Some (lit ''v'')))
          (sortChartData env ?rows (Some (lit ''m'')))))"
    unfolding renderBarChart_def rows21_first
    using len
    by (simp add: nameOr_def truthyName_def yAxisOf_def keys_def first_def maxBarItems_def
        lit_def Let_def)
  then have b: "map_option length (renderBarChart env ?ds ?rows) = Some 20"
    using len by (simp add: length_arraySort)
  show ?thesis using a b by simp
qed

theorem bar_cap_21_rows_witness:
  "length (buildBarOption
      \<lparr> parseFloatString = (\<lambda>s. NaN), stringOf = (\<lambda>v. []), dateValue = (\<lambda>s. NaN),
        localeCompare = (\<lambda>a b. Fin 0) \<rparr>
      [\<lparr> xAxis = Some (lit ''m''), x_axis = None, yAxis = Some [lit ''v''], y_axis = None \<rparr>]
      (map (\<lambda>i. [(lit ''m'', JNum (real i)), (lit ''v'', JNum (real i))]) [1 ..< 22])) = 21"
  using bar_cap_21_rows
    [of "\<lparr> parseFloatString = (\<lambda>s. NaN), stringOf = (\<lambda>v. []), dateValue = (\<lambda>s. NaN),
        localeCompare = (\<lambda>a b. Fin 0) \<rparr>"]
  by blast


section \<open>Properties of the regular expressions\<close>


lemma rmatch_sound:
  "(c, rest) \<in> set (rmatch r s) \<Longrightarrow>
   \<exists>m. s = m @ rest \<and> (mustHave x r \<longrightarrow> x \<in> set m) \<and> (\<forall>cap \<in> set c. set cap \<subseteq> set s)"
proof (induction r s arbitrary: c rest rule: rmatch.induct)
  case (1 p s)
  then show ?case by (cases s) (auto split: if_splits)
next
  case (2 s)
  then show ?case by simp
next
  case (3 a b s)
  from 3(3) obtain c1 s1 c2 s2 where
    a: "(c1, s1) \<in> set (rmatch a s)" and b: "(c2, s2) \<in> set (rmatch b s1)"
    and c: "c = c1 @ c2" and r: "rest = s2"
    by auto
  from 3(1) [OF a] obtain m1 where
    m1: "s = m1 @ s1" "mustHave x a \<longrightarrow> x \<in> set m1" "\<forall>cap \<in> set c1. set cap \<subseteq> set s" by blast
  from 3(2) [OF a refl b] obtain m2 where
    m2: "s1 = m2 @ s2" "mustHave x b \<longrightarrow> x \<in> set m2" "\<forall>cap \<in> set c2. set cap \<subseteq> set s1" by blast
  have "s = (m1 @ m2) @ rest" using m1(1) m2(1) r by simp
  moreover have "mustHave x (Seq a b) \<longrightarrow> x \<in> set (m1 @ m2)" using m1(2) m2(2) by auto
  moreover have "\<forall>cap \<in> set c. set cap \<subseteq> set s" using c m1(1,3) m2(3) by auto
  ultimately show ?case by blast
next
  case (4 a b s)
  from 4(3) consider "(c, rest) \<in> set (rmatch a s)" | "(c, rest) \<in> set (rmatch b s)"
    by auto
  then show ?case
  proof cases
    case 1
    from 4(1) [OF 1] show ?thesis by auto
  next
    case 2
    from 4(2) [OF 2] show ?thesis by auto
  qed
next
  case (5 a s)
  from 5(3) have "(c, rest) \<in> set (concat (map (\<lambda>(c1, s1).
        if length s1 < length s then rmatch (Star a) s1 else []) (rmatch a s)) @ [([], s)])"
    by (simp only: rmatch.simps(5) [of a s])
  then consider (stop) "c = []" "rest = s"
    | (iter) c1 s1 where "(c1, s1) \<in> set (rmatch a s)" "length s1 < length s"
        "(c, rest) \<in> set (rmatch (Star a) s1)"
    by (auto split: if_splits)
  then show ?case
  proof cases
    case stop
    then show ?thesis by simp
  next
    case iter
    from 5(1) [OF iter(1)] obtain m1 where m1: "s = m1 @ s1" by blast
    from 5(2) [OF iter(1) refl iter(2) iter(3)] obtain m2 where
      m2: "s1 = m2 @ rest" "\<forall>cap \<in> set c. set cap \<subseteq> set s1" by blast
    have "s = (m1 @ m2) @ rest" using m1 m2(1) by simp
    moreover have "\<forall>cap \<in> set c. set cap \<subseteq> set s" using m1 m2(2) by auto
    ultimately show ?thesis by simp
  qed
next
  case (6 a s)
  from 6(3) have "(c, rest) \<in> set (([], s) # concat (map (\<lambda>(c1, s1).
        if length s1 < length s then rmatch (Lazy a) s1 else []) (rmatch a s)))"
    by (simp only: rmatch.simps(6) [of a s])
  then consider (stop) "c = []" "rest = s"
    | (iter) c1 s1 where "(c1, s1) \<in> set (rmatch a s)" "length s1 < length s"
        "(c, rest) \<in> set (rmatch (Lazy a) s1)"
    by (auto split: if_splits)
  then show ?case
  proof cases
    case stop
    then show ?thesis by simp
  next
    case iter
    from 6(1) [OF iter(1)] obtain m1 where m1: "s = m1 @ s1" by blast
    from 6(2) [OF iter(1) refl iter(2) iter(3)] obtain m2 where
      m2: "s1 = m2 @ rest" "\<forall>cap \<in> set c. set cap \<subseteq> set s1" by blast
    have "s = (m1 @ m2) @ rest" using m1 m2(1) by simp
    moreover have "\<forall>cap \<in> set c. set cap \<subseteq> set s" using m1 m2(2) by auto
    ultimately show ?thesis by simp
  qed
next
  case (7 a s)
  from 7(2) obtain c1 where a: "(c1, rest) \<in> set (rmatch a s)"
    and c: "c = take (length s - length rest) s # c1"
    by auto
  from 7(1) [OF a] obtain m where
    m: "s = m @ rest" "mustHave x a \<longrightarrow> x \<in> set m" "\<forall>cap \<in> set c1. set cap \<subseteq> set s" by blast
  have "take (length s - length rest) s = m" using m(1) by simp
  then have "\<forall>cap \<in> set c. set cap \<subseteq> set s" using c m(1,3) by auto
  then show ?case using m by auto
qed


lemma rmatch_none: "mustHave x r \<Longrightarrow> x \<notin> set s \<Longrightarrow> rmatch r s = []"
proof (rule ccontr)
  assume mh: "mustHave x r" and nx: "x \<notin> set s" and ne: "rmatch r s \<noteq> []"
  then obtain c rest where "(c, rest) \<in> set (rmatch r s)"
    by (cases "rmatch r s") auto
  from rmatch_sound [OF this, of x] mh obtain m where "s = m @ rest" "x \<in> set m" by blast
  then show False using nx by simp
qed

lemma replaceAll_none: "mustHave x r \<Longrightarrow> x \<notin> set s \<Longrightarrow> replaceAll r t s = s"
proof (induction s)
  case Nil
  then show ?case by (subst replaceAll.simps) (simp add: rmatch_none)
next
  case (Cons c cs)
  have "rmatch r (c # cs) = []" using Cons.prems by (rule rmatch_none)
  then have "replaceAll r t (c # cs) = c # replaceAll r t cs"
    by (subst replaceAll.simps) simp
  then show ?case using Cons by simp
qed

lemma expand_chars: "set (expand t caps) \<subseteq> (\<Union>cap \<in> set caps. set cap) \<union> tchars t"
proof (induction t caps rule: expand.induct)
  case (1 caps)
  then show ?case by simp
next
  case (2 t ps caps)
  then show ?case by auto
next
  case (3 n ps caps)
  have "0 < n \<Longrightarrow> n \<le> length caps \<Longrightarrow> set (caps ! (n - 1)) \<subseteq> (\<Union>cap \<in> set caps. set cap)"
    by (metis One_nat_def Suc_pred UN_upper less_eq_Suc_le nth_mem)
  then show ?case using 3 by auto
qed

lemma replaceAll_chars: "set (replaceAll r t s) \<subseteq> set s \<union> tchars t"
proof (induction r t s rule: replaceAll.induct)
  case (1 r t s)
  show ?case
  proof (cases "rmatch r s")
    case Nil
    show ?thesis
    proof (cases s)
      case Nil
      then show ?thesis using \<open>rmatch r s = []\<close> by (subst replaceAll.simps) simp
    next
      case (Cons c cs)
      have "replaceAll r t s = c # replaceAll r t cs"
        using Cons \<open>rmatch r s = []\<close> by (subst replaceAll.simps) simp
      then show ?thesis using 1(1) [OF \<open>rmatch r s = []\<close> Cons] Cons by auto
    qed
  next
    case (Cons p other)
    obtain caps rest where p: "p = (caps, rest)" by (cases p)
    have mem: "(caps, rest) \<in> set (rmatch r s)" using Cons p by simp
    from rmatch_sound [OF mem, of undefined] obtain m where
      m: "s = m @ rest" "\<forall>cap \<in> set caps. set cap \<subseteq> set s" by blast
    have ex: "set (expand t caps) \<subseteq> set s \<union> tchars t"
      using expand_chars [of t caps] m(2) by blast
    show ?thesis
    proof (cases "length rest < length s")
      case True
      have "replaceAll r t s = expand t caps @ replaceAll r t rest"
        using Cons p True by (subst replaceAll.simps) simp
      moreover have "set (replaceAll r t rest) \<subseteq> set rest \<union> tchars t"
        using 1(2) [OF Cons p [symmetric] True] .
      moreover have "set rest \<subseteq> set s" using m(1) by auto
      ultimately show ?thesis using ex by auto
    next
      case False
      show ?thesis
      proof (cases s)
        case Nil
        then have "replaceAll r t s = expand t caps"
          using Cons p False by (subst replaceAll.simps) simp
        then show ?thesis using ex by simp
      next
        case (Cons c cs)
        have "replaceAll r t s = expand t caps @ c # replaceAll r t cs"
          using Cons \<open>rmatch r s = p # other\<close> p False by (subst replaceAll.simps) simp
        moreover have "set (replaceAll r t cs) \<subseteq> set cs \<union> tchars t"
          using 1(3) [OF \<open>rmatch r s = p # other\<close> p [symmetric] False Cons] .
        ultimately show ?thesis using ex Cons by auto
      qed
    qed
  qed
qed

lemma set_trimStart: "set (trimStart s) \<subseteq> set s"
  by (auto simp: trimStart_def dest: set_dropWhileD)

lemma set_trimEnd: "set (trimEnd s) \<subseteq> set s"
  by (auto simp: trimEnd_def dest: set_dropWhileD)

lemma set_trim: "set (trim s) \<subseteq> set s"
  using set_trimStart set_trimEnd unfolding trim_def by blast


section \<open>Markdown repair on text without pipes\<close>


lemma join_cons: "join ((c # r) # rs) sep = c # join (r # rs) sep"
  by (cases rs) simp_all

lemma join_cons2: "rs \<noteq> [] \<Longrightarrow> join (r # rs) sep = r @ sep @ join rs sep"
  by (cases rs) simp_all

lemma join_splitOn: "sep \<noteq> [] \<Longrightarrow> join (splitOn sep s) sep = s"
proof (induction sep s rule: splitOn.induct)
  case (1 sep)
  then show ?case by simp
next
  case (2 sep c cs)
  show ?case
  proof (cases "startsWith (c # cs) sep")
    case True
    have "join (splitOn sep (drop (length sep) (c # cs))) sep = drop (length sep) (c # cs)"
      using 2(1) 2(3) True by blast
    moreover have "splitOn sep (c # cs) = [] # splitOn sep (drop (length sep) (c # cs))"
      using 2(3) True by simp
    moreover have "sep @ drop (length sep) (c # cs) = c # cs"
      using True by (metis append_take_drop_id startsWith_def)
    ultimately show ?thesis by (simp add: join_cons2 splitOn_nonempty del: splitOn.simps)
  next
    case False
    obtain r rs where rrs: "splitOn sep cs = r # rs"
      using splitOn_nonempty by (cases "splitOn sep cs") auto
    have "join (splitOn sep cs) sep = cs" using 2(2) 2(3) False by blast
    moreover have "splitOn sep (c # cs) = (c # r) # rs" using False rrs by simp
    ultimately show ?thesis using rrs by (simp add: join_cons del: splitOn.simps join.simps)
  qed
qed

lemma set_splitOn: "l \<in> set (splitOn sep s) \<Longrightarrow> set l \<subseteq> set s"
proof (induction sep s arbitrary: l rule: splitOn.induct)
  case (1 sep)
  then show ?case by simp
next
  case (2 sep c cs)
  show ?case
  proof (cases "sep \<noteq> [] \<and> startsWith (c # cs) sep")
    case True
    then have "l = [] \<or> l \<in> set (splitOn sep (drop (length sep) (c # cs)))"
      using 2(3) by simp
    moreover have "set (drop (length sep) (c # cs)) \<subseteq> set (c # cs)" by (rule set_drop_subset)
    ultimately show ?thesis using 2(1) [OF True] by (auto simp del: drop_Suc_Cons)
  next
    case False
    obtain r rs where rrs: "splitOn sep cs = r # rs"
      using splitOn_nonempty by (cases "splitOn sep cs") auto
    then have l: "l = c # r \<or> l \<in> set rs" using 2(3) False by auto
    have ih: "set l' \<subseteq> set cs" if "l' \<in> set (r # rs)" for l'
      using 2(2) [OF False] that rrs by simp
    have "set r \<subseteq> set cs" using ih by simp
    moreover have "l \<in> set rs \<Longrightarrow> set l \<subseteq> set cs" using ih by simp
    ultimately show ?thesis using l by auto
  qed
qed

lemma join_split_newline: "join (split s (lit ''\<newline>'')) (lit ''\<newline>'') = s"
  using join_splitOn [of "lit ''\<newline>''" s] by (simp add: split_def lit_def)

lemma set_split_newline: "l \<in> set (split s (lit ''\<newline>'')) \<Longrightarrow> set l \<subseteq> set s"
  using set_splitOn [of l "lit ''\<newline>''" s] by (simp add: split_def lit_def)

lemma testFull_none: "mustHave x r \<Longrightarrow> x \<notin> set s \<Longrightarrow> \<not> testFull r s"
  by (simp add: testFull_def rmatch_none)

lemma mustHave_loneCell: "mustHave 0x7C loneCell"
  by (simp add: loneCell_def ch_def)

lemma mustHave_separatorRow: "mustHave 0x7C separatorRow"
  by (simp add: separatorRow_def ch_def)

lemma startsWith_pipe: "0x7C \<notin> set s \<Longrightarrow> \<not> startsWith s [0x7C]"
  by (cases s) (auto simp: startsWith_def)

lemma mergeLines_no_pipe:
  "\<forall>l \<in> set ls. 0x7C \<notin> set l \<Longrightarrow> mergeLines ec merged ls = merged @ ls"
proof (induction ls arbitrary: merged)
  case Nil
  then show ?case by simp
next
  case (Cons line rest)
  have t: "0x7C \<notin> set (trim line)" using Cons.prems set_trim by fastforce
  have a: "\<not> testFull loneCell (trim line)"
    using t by (rule testFull_none [OF mustHave_loneCell])
  have b: "\<not> startsWith (trim line) [0x7C]" using t by (rule startsWith_pipe)
  have c: "rest \<noteq> [] \<Longrightarrow> \<not> testFull loneCell (trim (hd rest))"
  proof -
    assume "rest \<noteq> []"
    then have "0x7C \<notin> set (hd rest)" using Cons.prems by (cases rest) auto
    then have "0x7C \<notin> set (trim (hd rest))" using set_trim by fastforce
    then show ?thesis by (rule testFull_none [OF mustHave_loneCell])
  qed
  have "mergeLines ec merged (line # rest) = mergeLines ec (merged @ [line]) rest"
    using a b c by (subst mergeLines.simps(2)) (auto simp: Let_def)
  then show ?case using Cons by simp
qed

lemma mustHave_pipeAfterSentence: "mustHave 0x7C pipeAfterSentence"
  by (simp add: pipeAfterSentence_def ch_def)

lemma mustHave_tableAfterText: "mustHave 0x7C tableAfterText"
  by (simp add: tableAfterText_def ch_def)

lemma mustHave_textAfterTable: "mustHave 0x7C textAfterTable"
  by (simp add: textAfterTable_def ch_def)

lemma fixMarkdownTables_no_pipe: "0x7C \<notin> set s \<Longrightarrow> fixMarkdownTables s = s"
proof -
  assume np: "0x7C \<notin> set s"
  have "\<forall>l \<in> set (split s (lit ''\<newline>'')). 0x7C \<notin> set l"
    using np set_split_newline by blast
  then have "mergeLines (expectedColumns (split s (lit ''\<newline>''))) [] (split s (lit ''\<newline>''))
      = split s (lit ''\<newline>'')"
    using mergeLines_no_pipe by fastforce
  then show ?thesis
    using np
    by (simp add: fixMarkdownTables_def Let_def join_split_newline
        replaceAll_none [OF mustHave_pipeAfterSentence]
        replaceAll_none [OF mustHave_tableAfterText]
        replaceAll_none [OF mustHave_textAfterTable])
qed

lemma replaceAll_no_pipe:
  "0x7C \<notin> set s \<Longrightarrow> 0x7C \<notin> tchars t \<Longrightarrow> 0x7C \<notin> set (replaceAll r t s)"
  using replaceAll_chars [of r t s] by blast

lemma trim_no_pipe: "0x7C \<notin> set s \<Longrightarrow> 0x7C \<notin> set (trim s)"
  using set_trim by blast

lemma cleanHtmlAndUrls_no_pipe: "0x7C \<notin> set s \<Longrightarrow> 0x7C \<notin> set (cleanHtmlAndUrls s)"
  by (simp add: cleanHtmlAndUrls_def Let_def replaceAll_no_pipe trim_no_pipe lit_def)

text \<open>On a text without pipes the repair pipeline is the sanitization alone.\<close>

lemma repairMarkdown_no_pipe: "0x7C \<notin> set s \<Longrightarrow> repairMarkdown s = cleanHtmlAndUrls s"
proof -
  assume np: "0x7C \<notin> set s"
  have c: "0x7C \<notin> set (cleanHtmlAndUrls s)" using np by (rule cleanHtmlAndUrls_no_pipe)
  have e: "cleanHtmlAndUrls [] = []" by (simp add: cleanHtmlAndUrls_def)
  show ?thesis
    using c e by (cases "s = []") (simp_all add: repairMarkdown_def fixMarkdownTables_no_pipe)
qed

text \<open>
  Claim C5 at the input \<^verbatim>\<open>%2%222\<close>. Repair is not idempotent there: the sanitization,
  which is to clean the text thoroughly and has a pass that removes \<^verbatim>\<open>%22\<close>, runs that
  pass once; removing the \<^verbatim>\<open>%22\<close> in the middle of \<^verbatim>\<open>%2%222\<close> leaves a new \<^verbatim>\<open>%22\<close> behind, so
  the repaired text is \<^verbatim>\<open>%22\<close>, and repairing that text again gives the empty text. In the
  same way the text \<^verbatim>\<open><%22b>x\<close> is repaired to \<^verbatim>\<open><b>x\<close>, a tag that the earlier passes
  were to remove, and a second repair gives \<^verbatim>\<open>x\<close>.
\<close>

theorem repair_twice_differs:
  "cleanHtmlAndUrls (lit ''%2%222'') = lit ''%22''
   \<and> repairMarkdown (lit ''%2%222'') = lit ''%22''
   \<and> repairMarkdown (repairMarkdown (lit ''%2%222'')) = []
   \<and> repairMarkdown (repairMarkdown (lit ''%2%222'')) \<noteq> repairMarkdown (lit ''%2%222'')
   \<and> repairMarkdown (lit ''<%22b>x'') = lit ''<b>x''
   \<and> repairMarkdown (repairMarkdown (lit ''<%22b>x'')) = lit ''x''"
  by code_simp

text \<open>
  Table repair by itself is not idempotent either. On the four lines \<^verbatim>\<open>End. | x\<close>, \<^verbatim>\<open>z\<close>,
  \<^verbatim>\<open>| y |\<close>, \<^verbatim>\<open>|-|-|\<close> the sanitization changes nothing; the first repair joins \<^verbatim>\<open>z\<close> with
  the lone cell and puts a blank line behind \<^verbatim>\<open>End.\<close>, which leaves \<^verbatim>\<open>| x\<close> at the start of
  a line, and the second repair takes that line for a broken row and joins the next
  line to it.
\<close>

lemma table_repair_twice_differs:
  "cleanHtmlAndUrls (lit ''End. | x\<newline>z\<newline>| y |\<newline>|-|-|'')
     = lit ''End. | x\<newline>z\<newline>| y |\<newline>|-|-|''
   \<and> fixMarkdownTables (lit ''End. | x\<newline>z\<newline>| y |\<newline>|-|-|'')
     = lit ''End.\<newline>\<newline>| x\<newline>z | y |\<newline>|-|-|''
   \<and> fixMarkdownTables (fixMarkdownTables (lit ''End. | x\<newline>z\<newline>| y |\<newline>|-|-|''))
     = lit ''End.\<newline>\<newline>| x z | y |\<newline>|-|-|''
   \<and> repairMarkdown (repairMarkdown (lit ''End. | x\<newline>z\<newline>| y |\<newline>|-|-|''))
     \<noteq> repairMarkdown (lit ''End. | x\<newline>z\<newline>| y |\<newline>|-|-|'')"
  by code_simp


section \<open>A discovery whose chart is left out\<close>

text \<open>
  Claim C8 on a discovery with two charts. The insight holds the placeholder of chart
  \<open>a\<close> only, and the title of chart \<open>a\<close> is the text \<^verbatim>\<open>id="chart-0-1"\<close>. Chart \<open>a\<close> takes the place
  of its placeholder. Chart \<open>b\<close> has no placeholder in the insight, so the claim has it
  appended behind the insight; but the test of the second loop looks for the text
  \<^verbatim>\<open>id="chart-0-1"\<close> in the insight, finds it in the title of chart \<open>a\<close>, and chart \<open>b\<close> is
  not appended: the output is the discovery with the container of chart \<open>a\<close> alone, and
  the data of chart \<open>b\<close> occur nowhere in it. (The library \<^verbatim>\<open>marked\<close> is taken as not
  loaded; the insight holds no markdown.)
\<close>

theorem discovery_drops_chart:
  \<open>renderDiscovery None
     \<lparr> d_insight = Some (lit ''{{CHART:a}}''), d_content = None, d_title = Some (lit ''T''),
       d_charts =
         [\<lparr> chart_id = Some (lit ''a''), chart_title = Some (lit ''id="chart-0-1"''),
            chart_data = lit ''QQ=='' \<rparr>,
          \<lparr> chart_id = Some (lit ''b''), chart_title = Some (lit ''B''),
            chart_data = lit ''Qg=='' \<rparr>],
       d_data_interpretation = None \<rparr> 0
   = lit ''\<newline>        <div class="discovery">\<newline>            <h3 class="discovery-title">T</h3>\<newline>            <div class="discovery-content markdown-content">\<newline>                ''
     @ renderChartContainer
         \<lparr> chart_id = Some (lit ''a''), chart_title = Some (lit ''id="chart-0-1"''),
           chart_data = lit ''QQ=='' \<rparr> (lit ''chart-0-0'')
     @ lit ''\<newline>            </div>\<newline>    </div>''
   \<and> \<not> includesStr (renderMarkdown None (lit ''{{CHART:a}}'')) (lit ''{{CHART:b}}'')
   \<and> \<not> includesStr
       (renderDiscovery None
          \<lparr> d_insight = Some (lit ''{{CHART:a}}''), d_content = None, d_title = Some (lit ''T''),
            d_charts =
              [\<lparr> chart_id = Some (lit ''a''), chart_title = Some (lit ''id="chart-0-1"''),
                 chart_data = lit ''QQ=='' \<rparr>,
               \<lparr> chart_id = Some (lit ''b''), chart_title = Some (lit ''B''),
                 chart_data = lit ''Qg=='' \<rparr>],
            d_data_interpretation = None \<rparr> 0)
       (lit ''data-chart="Qg=="'')\<close>
  by code_simp

text \<open>With an ordinary title for chart \<open>a\<close> the same discovery has chart \<open>b\<close> appended.\<close>

lemma discovery_appends_chart:
  \<open>includesStr
     (renderDiscovery None
        \<lparr> d_insight = Some (lit ''{{CHART:a}}''), d_content = None, d_title = Some (lit ''T''),
          d_charts =
            [\<lparr> chart_id = Some (lit ''a''), chart_title = Some (lit ''A''),
               chart_data = lit ''QQ=='' \<rparr>,
             \<lparr> chart_id = Some (lit ''b''), chart_title = Some (lit ''B''),
               chart_data = lit ''Qg=='' \<rparr>],
          d_data_interpretation = None \<rparr> 0)
     (lit ''data-chart="Qg=="'')\<close>
  by code_simp

text \<open>The chart is left out as well when the library is loaded, as soon as it keeps the
  placeholder: here \<^verbatim>\<open>marked.parse\<close> is taken to wrap its argument in a paragraph.\<close>

lemma discovery_drops_chart_with_library:
  \<open>\<not> includesStr
       (renderDiscovery (Some (\<lambda>s. lit ''<p>'' @ s @ lit ''</p>\<newline>''))
          \<lparr> d_insight = Some (lit ''{{CHART:a}}''), d_content = None, d_title = Some (lit ''T''),
            d_charts =
              [\<lparr> chart_id = Some (lit ''a''), chart_title = Some (lit ''id="chart-0-1"''),
                 chart_data = lit ''QQ=='' \<rparr>,
               \<lparr> chart_id = Some (lit ''b''), chart_title = Some (lit ''B''),
                 chart_data = lit ''Qg=='' \<rparr>],
            d_data_interpretation = None \<rparr> 0)
       (lit ''data-chart="Qg=="'')\<close>
  by code_simp

end
